theory Spec2Isabelle
  imports Main "HOL-Library.Multiset"
begin

section \<open>Tables, cells and the pandas operations the program uses\<close>

text \<open>
  The program is a pandas script: every table is a \<^verbatim>\<open>DataFrame\<close>, and the code works on
  whole columns (\<^verbatim>\<open>df[col] = ...\<close>, boolean masks, \<^verbatim>\<open>isin\<close>). The model keeps that shape:
  a frame is its row index together with the list of its labelled columns, in order.
  A cell is text, a number, a timestamp (year, month, day) or the missing value
  (\<^verbatim>\<open>NaN\<close>, \<^verbatim>\<open>NaT\<close>, \<^verbatim>\<open>pd.NA\<close>, \<^verbatim>\<open>None\<close>). Quantities are integers; text is a list of
  bytes (UTF-8), so that text equality, splitting at ASCII separators and substring
  tests agree with Python's.
\<close>

datatype cell = CStr string | CNum int | CDate int nat nat | CNull

record dataframe =
  index :: "nat list"
  data :: "(string \<times> cell list) list"

datatype error = KeyError | IndexError | ValueError

text \<open>\<^verbatim>\<open>pd.DataFrame()\<close>: no rows and no columns.\<close>

definition pd_DataFrame :: dataframe where
  "pd_DataFrame = \<lparr>index = [], data = []\<rparr>"

definition columns :: "dataframe \<Rightarrow> string list" where
  "columns df = map fst (data df)"

text \<open>\<^verbatim>\<open>len(df)\<close> counts the rows; \<^verbatim>\<open>df.empty\<close> holds when either axis has length 0.\<close>

definition df_len :: "dataframe \<Rightarrow> nat" where
  "df_len df = length (index df)"

definition df_empty :: "dataframe \<Rightarrow> bool" where
  "df_empty df = (index df = [] \<or> data df = [])"

text \<open>\<^verbatim>\<open>df[col]\<close> raises \<^verbatim>\<open>KeyError\<close> for a label that is not a column.\<close>

definition get_col :: "dataframe \<Rightarrow> string \<Rightarrow> error + cell list" where
  "get_col df c = (case map_of (data df) c of None \<Rightarrow> Inl KeyError | Some vs \<Rightarrow> Inr vs)"

text \<open>The same read where the code has already checked that the label is a column.\<close>

definition the_col :: "dataframe \<Rightarrow> string \<Rightarrow> cell list" where
  "the_col df c = (case map_of (data df) c of None \<Rightarrow> [] | Some vs \<Rightarrow> vs)"

text \<open>
  \<^verbatim>\<open>df[col] = values\<close> replaces the column in place when the label exists (every column
  carrying that label) and appends a new last column otherwise.
\<close>

definition set_col :: "string \<Rightarrow> cell list \<Rightarrow> dataframe \<Rightarrow> dataframe" where
  "set_col c vs df =
     df\<lparr>data := (if c \<in> set (columns df)
                  then map (\<lambda>(k, old). if k = c then (k, vs) else (k, old)) (data df)
                  else data df @ [(c, vs)])\<rparr>"

text \<open>Boolean-mask selection \<^verbatim>\<open>df[mask]\<close>: the rows at which the mask is true, index kept.\<close>

definition select :: "bool list \<Rightarrow> 'a list \<Rightarrow> 'a list" where
  "select m xs = map snd (filter fst (zip m xs))"

definition select_rows :: "bool list \<Rightarrow> dataframe \<Rightarrow> dataframe" where
  "select_rows m df =
     \<lparr>index = select m (index df), data = map (\<lambda>(k, vs). (k, select m vs)) (data df)\<rparr>"

text \<open>\<^verbatim>\<open>df.iloc[:-1]\<close>: all rows but the last.\<close>

definition iloc_drop_last :: "dataframe \<Rightarrow> dataframe" where
  "iloc_drop_last df =
     \<lparr>index = butlast (index df), data = map (\<lambda>(k, vs). (k, butlast vs)) (data df)\<rparr>"

text \<open>
  The parsers of pandas itself are not part of the program. They enter as parameters:
  how a cell that is neither a timestamp nor missing is read as a date
  (\<^verbatim>\<open>pd.to_datetime\<close>), how a cell that is neither a number nor missing is read as a
  number (\<^verbatim>\<open>pd.to_numeric\<close>), how a cell that is not text prints (\<^verbatim>\<open>astype(str)\<close>),
  and how a timestamp prints under \<^verbatim>\<open>strftime('%Y-%m-%d')\<close>. Each acts cell by cell.
\<close>

record pandas =
  parse_datetime :: "cell \<Rightarrow> (int \<times> nat \<times> nat) option"
  parse_numeric :: "cell \<Rightarrow> int option"
  str_of :: "cell \<Rightarrow> string"
  strftime :: "int \<times> nat \<times> nat \<Rightarrow> string"

text \<open>\<^verbatim>\<open>pd.to_datetime(..., errors='coerce')\<close>: what does not parse becomes \<^verbatim>\<open>NaT\<close>.\<close>

definition to_datetime :: "pandas \<Rightarrow> cell \<Rightarrow> cell" where
  "to_datetime L c =
     (case c of
        CDate y m d \<Rightarrow> CDate y m d
      | CNull \<Rightarrow> CNull
      | _ \<Rightarrow> (case parse_datetime L c of Some (y, m, d) \<Rightarrow> CDate y m d | None \<Rightarrow> CNull))"

definition notna :: "cell \<Rightarrow> bool" where
  "notna c = (c \<noteq> CNull)"

section \<open>The previous-month filter\<close>

text \<open>
  \<^verbatim>\<open>today\<close> is the (year, month) of \<^verbatim>\<open>pd.Timestamp.now()\<close>. The two conditional
  expressions of the source give the year and the month of the previous calendar month.
\<close>

definition prev_month_year :: "int \<times> nat \<Rightarrow> int" where
  "prev_month_year today = (if snd today > 1 then fst today else fst today - 1)"

definition prev_month :: "int \<times> nat \<Rightarrow> nat" where
  "prev_month today = (if snd today > 1 then snd today - 1 else 12)"

text \<open>\<^verbatim>\<open>(df[date_col].dt.year == prev_month_year) & (df[date_col].dt.month == prev_month)\<close>\<close>

definition in_previous_month :: "int \<times> nat \<Rightarrow> cell \<Rightarrow> bool" where
  "in_previous_month today c =
     (case c of CDate y m d \<Rightarrow> y = prev_month_year today \<and> m = prev_month today | _ \<Rightarrow> False)"

text \<open>
  Lines 31 to 39 of \<^verbatim>\<open>filter_by_previous_month\<close>, on the frame the local name \<^verbatim>\<open>df\<close>
  refers to. The column assignment and \<^verbatim>\<open>dropna(inplace=True)\<close> change that frame, so
  the function returns it as well: the pair is (the frame \<^verbatim>\<open>df\<close> names afterwards, the
  returned table).
\<close>

definition filter_parsed :: "pandas \<Rightarrow> int \<times> nat \<Rightarrow> dataframe \<Rightarrow> string \<Rightarrow> dataframe \<times> dataframe" where
  "filter_parsed L today df date_col =
     (let df1 = set_col date_col (map (to_datetime L) (the_col df date_col)) df;
          df2 = select_rows (map notna (the_col df1 date_col)) df1
      in if df_empty df2 then (df2, pd_DataFrame)
         else (df2, select_rows (map (in_previous_month today) (the_col df2 date_col)) df2))"

text \<open>
  \<^verbatim>\<open>filter_by_previous_month\<close> with the caller's frame made explicit. With more than one
  row the local name is rebound to a copy (\<^verbatim>\<open>df.iloc[:-1].copy()\<close>) and the caller's frame
  is left alone; otherwise the local name still refers to the caller's frame, which the
  assignments then change. The pair is (the caller's frame after the call, the result).
\<close>

definition filter_by_previous_month_st ::
  "pandas \<Rightarrow> int \<times> nat \<Rightarrow> dataframe \<Rightarrow> string \<Rightarrow> dataframe \<times> dataframe" where
  "filter_by_previous_month_st L today df date_col =
     (if date_col \<notin> set (columns df) \<or> df_empty df then (df, pd_DataFrame)
      else if df_len df > 1
        then (df, snd (filter_parsed L today (iloc_drop_last df) date_col))
        else filter_parsed L today df date_col)"

definition filter_by_previous_month :: "pandas \<Rightarrow> int \<times> nat \<Rightarrow> dataframe \<Rightarrow> string \<Rightarrow> dataframe" where
  "filter_by_previous_month L today df date_col = snd (filter_by_previous_month_st L today df date_col)"


section \<open>Rows, well-formed frames and concrete inputs\<close>

subsection \<open>The row view of a frame\<close>

text \<open>
  The claims speak of rows. \<open>rows_of\<close> reads a frame row by row: each row is its index
  label and its cells, labelled, in column order. A frame is well formed when every
  column is as long as the index, which pandas maintains for every \<^verbatim>\<open>DataFrame\<close>.
\<close>

fun rows_of_cols :: "nat list \<Rightarrow> (string \<times> cell list) list \<Rightarrow> (nat \<times> (string \<times> cell) list) list" where
  "rows_of_cols is [] = map (\<lambda>i. (i, [])) is"
| "rows_of_cols is ((k, vs) # cs) = map (\<lambda>(v, (i, r)). (i, (k, v) # r)) (zip vs (rows_of_cols is cs))"

definition rows_of :: "dataframe \<Rightarrow> (nat \<times> (string \<times> cell) list) list" where
  "rows_of df = rows_of_cols (index df) (data df)"

definition wf_df :: "dataframe \<Rightarrow> bool" where
  "wf_df df = (\<forall>(k, vs) \<in> set (data df). length vs = length (index df))"

definition row_get :: "(string \<times> cell) list \<Rightarrow> string \<Rightarrow> cell" where
  "row_get r c = (case map_of r c of Some v \<Rightarrow> v | None \<Rightarrow> CNull)"

definition row_set :: "string \<Rightarrow> cell \<Rightarrow> (string \<times> cell) list \<Rightarrow> (string \<times> cell) list" where
  "row_set c v r = map (\<lambda>(k, x). if k = c then (k, v) else (k, x)) r"

subsection \<open>Concrete inputs\<close>

text \<open>
  A pandas in which only timestamp cells are dates and only number cells are numbers,
  and two small exports: four rows of which the last is the trailing summary row, and
  a single row whose date cell is text that is no date.
\<close>

definition strict_pandas :: pandas where
  "strict_pandas = \<lparr>parse_datetime = (\<lambda>c. None), parse_numeric = (\<lambda>c. None),
     str_of = (\<lambda>c. ''nan''), strftime = (\<lambda>d. ''date'')\<rparr>"

definition may_dates :: dataframe where
  "may_dates = \<lparr>index = [0, 1, 2, 3],
     data = [(''date'', [CDate 2024 5 3, CStr ''n/a'', CDate 2024 6 1, CDate 2024 5 31]),
             (''qty'', [CNum 4, CNum 5, CNum 6, CNum 15])]\<rparr>"

definition one_row :: dataframe where
  "one_row = \<lparr>index = [0], data = [(''date'', [CStr ''total'']), (''qty'', [CNum 15])]\<rparr>"


subsection \<open>Masks and the row view\<close>

lemma select_Nil [simp]: "select [] xs = []" "select m [] = []"
  by (simp_all add: select_def)

lemma select_Cons [simp]: "select (b # m) (x # xs) = (if b then x # select m xs else select m xs)"
  by (simp add: select_def)

lemma select_map_self: "select (map p xs) xs = filter p xs"
  by (induction xs) auto

lemma select_map: "select m (map f xs) = map f (select m xs)"
proof (induction m arbitrary: xs)
  case Nil show ?case by simp
next
  case (Cons b m) show ?case by (cases xs) (simp_all add: Cons.IH)
qed

lemma select_zip: "select m (zip xs ys) = zip (select m xs) (select m ys)"
proof (induction m arbitrary: xs ys)
  case Nil show ?case by simp
next
  case (Cons b m) show ?case by (cases xs; cases ys) (simp_all add: Cons.IH)
qed

lemma select_select: "select (map q (filter p ds)) (select (map p ds) xs) = select (map (\<lambda>d. p d \<and> q d) ds) xs"
proof (induction ds arbitrary: xs)
  case Nil show ?case by simp
next
  case (Cons d ds)
  show ?case by (cases xs) (simp_all add: Cons.IH)
qed

lemma rows_of_cols_select:
  "rows_of_cols (select m is) (map (\<lambda>(k, vs). (k, select m vs)) cs) = select m (rows_of_cols is cs)"
proof (induction cs)
  case Nil show ?case by (simp add: select_map)
next
  case (Cons kv cs)
  obtain k vs where kv: "kv = (k, vs)" by (cases kv)
  show ?case by (simp add: kv Cons.IH select_map select_zip)
qed

lemma length_rows_of_cols:
  "\<forall>(k, vs) \<in> set cs. length vs = length is \<Longrightarrow> length (rows_of_cols is cs) = length is"
  by (induction cs) auto

lemma butlast_zip: "length xs = length ys \<Longrightarrow> butlast (zip xs ys) = zip (butlast xs) (butlast ys)"
  by (induction xs ys rule: list_induct2) auto

lemma rows_of_cols_butlast:
  "\<forall>(k, vs) \<in> set cs. length vs = length is \<Longrightarrow>
   rows_of_cols (butlast is) (map (\<lambda>(k, vs). (k, butlast vs)) cs) = butlast (rows_of_cols is cs)"
proof (induction cs)
  case Nil show ?case by (simp add: map_butlast)
next
  case (Cons kv cs)
  obtain k vs where kv: "kv = (k, vs)" by (cases kv)
  have l: "length vs = length (rows_of_cols is cs)"
    using Cons.prems by (simp add: kv length_rows_of_cols)
  have ih: "rows_of_cols (butlast is) (map (\<lambda>(k, vs). (k, butlast vs)) cs) = butlast (rows_of_cols is cs)"
    using Cons by simp
  have "butlast (map (\<lambda>(v, (i, r)). (i, (k, v) # r)) (zip vs (rows_of_cols is cs)))
        = map (\<lambda>(v, (i, r)). (i, (k, v) # r)) (zip (butlast vs) (butlast (rows_of_cols is cs)))"
    by (simp only: map_butlast[symmetric] butlast_zip[OF l])
  then show ?case by (simp add: kv ih)
qed

lemma the_col_rows:
  "\<forall>(k, vs) \<in> set cs. length vs = length is \<Longrightarrow> map_of cs c = Some vs \<Longrightarrow>
   vs = map (\<lambda>(i, r). row_get r c) (rows_of_cols is cs)"
proof (induction cs)
  case Nil then show ?case by simp
next
  case (Cons kv cs)
  obtain k ws where kv: "kv = (k, ws)" by (cases kv)
  have l: "length ws = length (rows_of_cols is cs)"
    using Cons.prems by (simp add: kv length_rows_of_cols)
  show ?case
  proof (cases "k = c")
    case True
    then have "vs = ws" using Cons.prems kv by simp
    moreover have "map (\<lambda>(i, r). row_get r c) (rows_of_cols is (kv # cs)) = map fst (zip ws (rows_of_cols is cs))"
      using True by (simp add: kv row_get_def case_prod_unfold o_def)
    ultimately show ?thesis using l by simp
  next
    case False
    then have "vs = map (\<lambda>(i, r). row_get r c) (rows_of_cols is cs)"
      using Cons kv by simp
    moreover have "map (\<lambda>(i, r). row_get r c) (rows_of_cols is (kv # cs)) = map (\<lambda>(i, r). row_get r c) (map snd (zip ws (rows_of_cols is cs)))"
      using False by (simp add: kv row_get_def case_prod_unfold o_def)
    ultimately show ?thesis using l by simp
  qed
qed

lemma rows_of_cols_set:
  "\<forall>(k, vs) \<in> set cs. length vs = length is \<Longrightarrow> length nv = length is \<Longrightarrow>
   rows_of_cols is (map (\<lambda>(k, old). if k = c then (k, nv) else (k, old)) cs)
     = map (\<lambda>(v, (i, r)). (i, row_set c v r)) (zip nv (rows_of_cols is cs))"
proof (induction cs)
  case Nil
  then show ?case by (intro nth_equalityI) (simp_all add: row_set_def)
next
  case (Cons kv cs)
  obtain k ws where kv: "kv = (k, ws)" by (cases kv)
  have l: "length ws = length is" "length (rows_of_cols is cs) = length is"
    using Cons.prems by (simp_all add: kv length_rows_of_cols)
  have ih: "rows_of_cols is (map (\<lambda>(k, old). if k = c then (k, nv) else (k, old)) cs)
     = map (\<lambda>(v, (i, r)). (i, row_set c v r)) (zip nv (rows_of_cols is cs))"
    using Cons by simp
  have "rows_of_cols is (map (\<lambda>(k, old). if k = c then (k, nv) else (k, old)) (kv # cs))
      = map (\<lambda>(v, (i, r)). (i, (k, v) # r)) (zip (if k = c then nv else ws)
          (rows_of_cols is (map (\<lambda>(k, old). if k = c then (k, nv) else (k, old)) cs)))"
    by (simp add: kv)
  also have "\<dots> = map (\<lambda>(v, (i, r)). (i, (k, v) # r)) (zip (if k = c then nv else ws)
          (map (\<lambda>(v, (i, r)). (i, row_set c v r)) (zip nv (rows_of_cols is cs))))"
    by (simp only: ih)
  also have "\<dots> = map (\<lambda>(v, (i, r)). (i, row_set c v r)) (zip nv (rows_of_cols is (kv # cs)))"
    using l Cons.prems(2) by (cases "k = c"; intro nth_equalityI) (simp_all add: kv row_set_def case_prod_unfold)
  finally show ?case .
qed

lemma columns_set_col [simp]: "columns (set_col c nv df) = (if c \<in> set (columns df) then columns df else columns df @ [c])"
  by (auto simp: set_col_def columns_def case_prod_unfold o_def intro!: map_cong[OF refl])

lemma columns_select_rows [simp]: "columns (select_rows m df) = columns df"
  by (simp add: select_rows_def columns_def case_prod_unfold o_def)

lemma columns_iloc_drop_last [simp]: "columns (iloc_drop_last df) = columns df"
  by (simp add: iloc_drop_last_def columns_def case_prod_unfold o_def)

lemma index_set_col [simp]: "index (set_col c nv df) = index df"
  by (simp add: set_col_def)

lemma index_select_rows [simp]: "index (select_rows m df) = select m (index df)"
  by (simp add: select_rows_def)

lemma length_select: "length xs = length ys \<Longrightarrow> length (select m xs) = length (select m ys)"
proof (induction m arbitrary: xs ys)
  case Nil show ?case by simp
next
  case (Cons b m) then show ?case by (cases xs; cases ys) auto
qed

lemma wf_select_rows: "wf_df df \<Longrightarrow> wf_df (select_rows m df)"
  by (auto simp: wf_df_def select_rows_def intro: length_select)

lemma wf_iloc_drop_last: "wf_df df \<Longrightarrow> wf_df (iloc_drop_last df)"
  by (auto simp: wf_df_def iloc_drop_last_def)

lemma wf_set_col: "wf_df df \<Longrightarrow> length nv = df_len df \<Longrightarrow> wf_df (set_col c nv df)"
  by (auto simp: wf_df_def set_col_def df_len_def split: if_splits)

lemma map_of_map_values: "map_of (map (\<lambda>(k, vs). (k, f vs)) xs) c = map_option f (map_of xs c)"
  by (induction xs) auto

lemma the_col_select_rows: "the_col (select_rows m df) c = select m (the_col df c)"
  by (simp add: the_col_def select_rows_def map_of_map_values split: option.splits)

lemma map_of_replace:
  "c \<in> fst ` set xs \<Longrightarrow> map_of (map (\<lambda>(k, old). if k = c then (k, nv) else (k, old)) xs) c = Some nv"
  by (induction xs) auto

lemma the_col_set_col: "the_col (set_col c nv df) c = nv"
proof (cases "c \<in> fst ` set (data df)")
  case True
  then show ?thesis by (simp add: the_col_def set_col_def columns_def map_of_replace)
next
  case False
  then have "map_of (data df) c = None" by (simp add: map_of_eq_None_iff)
  then show ?thesis using False by (simp add: the_col_def set_col_def columns_def map_add_def)
qed

lemma length_the_col: "wf_df df \<Longrightarrow> c \<in> set (columns df) \<Longrightarrow> length (the_col df c) = df_len df"
proof -
  assume wf: "wf_df df" and c: "c \<in> set (columns df)"
  then obtain vs where m: "map_of (data df) c = Some vs"
    by (metis columns_def domD dom_map_of_conv_image_fst list.set_map)
  then have "(c, vs) \<in> set (data df)" by (rule map_of_SomeD)
  then show ?thesis using wf m by (auto simp: wf_df_def the_col_def df_len_def)
qed

lemma rows_of_select_rows: "rows_of (select_rows m df) = select m (rows_of df)"
  by (simp add: rows_of_def select_rows_def rows_of_cols_select)

lemma rows_of_iloc_drop_last: "wf_df df \<Longrightarrow> rows_of (iloc_drop_last df) = butlast (rows_of df)"
  by (simp add: rows_of_def iloc_drop_last_def wf_df_def rows_of_cols_butlast)

lemma length_rows_of: "wf_df df \<Longrightarrow> length (rows_of df) = df_len df"
  by (simp add: rows_of_def wf_df_def df_len_def length_rows_of_cols)

lemma the_col_rows_of:
  "wf_df df \<Longrightarrow> c \<in> set (columns df) \<Longrightarrow> the_col df c = map (\<lambda>(i, r). row_get r c) (rows_of df)"
proof -
  assume wf: "wf_df df" and c: "c \<in> set (columns df)"
  then obtain vs where m: "map_of (data df) c = Some vs"
    by (metis columns_def domD dom_map_of_conv_image_fst list.set_map)
  show ?thesis using the_col_rows[OF _ m, of "index df"] wf m
    by (simp add: wf_df_def the_col_def rows_of_def)
qed

lemma rows_of_set_col:
  "wf_df df \<Longrightarrow> c \<in> set (columns df) \<Longrightarrow>
   rows_of (set_col c (map f (the_col df c)) df)
     = map (\<lambda>(i, r). (i, row_set c (f (row_get r c)) r)) (rows_of df)"
proof -
  assume wf: "wf_df df" and c: "c \<in> set (columns df)"
  have l: "length (map f (the_col df c)) = length (index df)"
    using length_the_col[OF wf c] by (simp add: df_len_def)
  have "rows_of (set_col c (map f (the_col df c)) df)
      = map (\<lambda>(v, (i, r)). (i, row_set c v r)) (zip (map f (the_col df c)) (rows_of df))"
    using rows_of_cols_set[OF _ l] wf c by (simp add: rows_of_def set_col_def wf_df_def)
  also have "\<dots> = map (\<lambda>(i, r). (i, row_set c (f (row_get r c)) r)) (rows_of df)"
    unfolding the_col_rows_of[OF wf c]
    by (intro nth_equalityI) (simp_all add: case_prod_unfold)
  finally show ?thesis .
qed


section \<open>Properties of the previous-month filter\<close>

subsection \<open>What the filter returns\<close>

lemma in_previous_month_notna: "in_previous_month today d \<Longrightarrow> notna d"
  by (auto simp: in_previous_month_def notna_def)

lemma filter_parsed_rows:
  assumes wf: "wf_df df" and c: "c \<in> set (columns df)"
  shows "rows_of (snd (filter_parsed L today df c))
     = map (\<lambda>(i, r). (i, row_set c (to_datetime L (row_get r c)) r))
         (filter (\<lambda>(i, r). in_previous_month today (to_datetime L (row_get r c))) (rows_of df))"
proof -
  define nv where "nv = map (to_datetime L) (the_col df c)"
  define df1 where "df1 = set_col c nv df"
  define df2 where "df2 = select_rows (map notna (the_col df1 c)) df1"
  define res where "res = select_rows (map (in_previous_month today) (the_col df2 c)) df2"
  define P where "P = (\<lambda>(i :: nat, r). (i, row_set c (to_datetime L (row_get r c)) r))"
  have r1: "rows_of df1 = map P (rows_of df)"
    unfolding df1_def nv_def P_def by (rule rows_of_set_col[OF wf c])
  have c1: "the_col df1 c = nv" by (simp add: df1_def the_col_set_col)
  have nv: "nv = map (\<lambda>(i, r). to_datetime L (row_get r c)) (rows_of df)"
    by (simp add: nv_def the_col_rows_of[OF wf c] case_prod_unfold)
  have c2: "the_col df2 c = filter notna nv"
    by (simp add: df2_def the_col_select_rows c1 select_map_self)
  have "rows_of res = select (map (in_previous_month today) (filter notna nv)) (select (map notna nv) (rows_of df1))"
    using c2 by (simp add: res_def rows_of_select_rows) (simp add: df2_def rows_of_select_rows c1)
  also have "\<dots> = select (map (\<lambda>d. notna d \<and> in_previous_month today d) nv) (rows_of df1)"
    by (rule select_select)
  also have "(\<lambda>d. notna d \<and> in_previous_month today d) = in_previous_month today"
    using in_previous_month_notna by blast
  also have "select (map (in_previous_month today) nv) (rows_of df1)
      = map P (filter (\<lambda>(i, r). in_previous_month today (to_datetime L (row_get r c))) (rows_of df))"
    unfolding r1 nv select_map
    by (simp add: select_map_self case_prod_unfold o_def)
  finally have main: "rows_of res = map P (filter (\<lambda>(i, r). in_previous_month today (to_datetime L (row_get r c))) (rows_of df))" .
  have wf1: "wf_df df1" unfolding df1_def
    by (rule wf_set_col[OF wf]) (simp add: nv_def length_the_col[OF wf c])
  have wf2: "wf_df df2" unfolding df2_def by (rule wf_select_rows[OF wf1])
  have e: "df_empty df2 \<Longrightarrow> rows_of res = rows_of pd_DataFrame"
  proof -
    assume "df_empty df2"
    moreover have "data df2 \<noteq> []" using c by (auto simp: df2_def df1_def select_rows_def set_col_def columns_def)
    ultimately have "df_len df2 = 0" by (simp add: df_empty_def df_len_def)
    then have "rows_of df2 = []" using length_rows_of[OF wf2] by simp
    then have "rows_of res = []" by (simp add: res_def rows_of_select_rows)
    moreover have "rows_of pd_DataFrame = []" by (simp add: rows_of_def pd_DataFrame_def)
    ultimately show ?thesis by simp
  qed
  have "snd (filter_parsed L today df c) = (if df_empty df2 then pd_DataFrame else res)"
    by (simp add: filter_parsed_def Let_def df2_def df1_def nv_def res_def)
  then show ?thesis using e main by (auto simp: P_def)
qed

text \<open>
  The source's two conditionals pick the month before \<^verbatim>\<open>today\<close>: December of the year
  before when \<^verbatim>\<open>today\<close> is in January, the month before in the same year otherwise.
\<close>

lemma prev_month_cases:
  "1 \<le> snd today \<Longrightarrow>
   in_previous_month today c \<longleftrightarrow>
     (\<exists>y m d. c = CDate y m d \<and>
        (if snd today = 1 then y = fst today - 1 \<and> m = 12 else y = fst today \<and> m + 1 = snd today))"
  by (cases c) (auto simp: in_previous_month_def prev_month_year_def prev_month_def)



subsection \<open>What the filter does to the caller's table\<close>

text \<open>
  With no row or more than one, the caller's frame is the same after the call: either
  the function returns at once, or it works on the copy made by \<^verbatim>\<open>iloc[:-1].copy()\<close>.
\<close>

lemma filter_by_previous_month_st_frame:
  "df_len df \<noteq> 1 \<Longrightarrow> fst (filter_by_previous_month_st L today df date_col) = df"
  by (cases "index df") (auto simp: filter_by_previous_month_st_def df_empty_def df_len_def)

text \<open>
  Claim C5 says the caller's table is unchanged after the call, tables of exactly one
  row included. With exactly one row no copy is made, and the column assignment and
  \<^verbatim>\<open>dropna(inplace=True)\<close> act on the caller's frame: when the date of that one row does
  not parse, the caller's table has lost its row after the call.
\<close>

theorem filter_by_previous_month_single_row_mutated:
  assumes "index df = [i]" and "map_of (data df) date_col = Some [v]"
    and "to_datetime L v = CNull"
  shows "index (fst (filter_by_previous_month_st L today df date_col)) = []"
proof -
  have c: "date_col \<in> set (columns df)"
    using assms(2) by (auto simp: columns_def dest: map_of_SomeD intro: rev_image_eqI)
  have ne: "\<not> df_empty df" using assms(1) c by (auto simp: df_empty_def columns_def)
  have l: "df_len df = 1" using assms(1) by (simp add: df_len_def)
  have tc: "the_col df date_col = [v]" using assms(2) by (simp add: the_col_def)
  have "index (fst (filter_parsed L today df date_col)) = []"
    by (simp add: filter_parsed_def Let_def tc the_col_set_col assms(1,3) notna_def)
  then show ?thesis using c ne l by (simp add: filter_by_previous_month_st_def)
qed

theorem filter_by_previous_month_single_row_mutated_witness:
  "index one_row = [0] \<and> map_of (data one_row) ''date'' = Some [CStr ''total''] \<and>
   to_datetime strict_pandas (CStr ''total'') = CNull \<and>
   index (fst (filter_by_previous_month_st strict_pandas (2024, 6) one_row ''date'')) = [] \<and>
   fst (filter_by_previous_month_st strict_pandas (2024, 6) one_row ''date'') \<noteq> one_row"
proof -
  have a: "index one_row = [0]" by (simp add: one_row_def)
  have b: "map_of (data one_row) ''date'' = Some [CStr ''total'']" by (simp add: one_row_def)
  have c: "to_datetime strict_pandas (CStr ''total'') = CNull"
    by (simp add: to_datetime_def strict_pandas_def)
  have d: "index (fst (filter_by_previous_month_st strict_pandas (2024, 6) one_row ''date'')) = []"
    by (rule filter_by_previous_month_single_row_mutated[OF a b c])
  then have "fst (filter_by_previous_month_st strict_pandas (2024, 6) one_row ''date'') \<noteq> one_row"
    using a by auto
  then show ?thesis using a b c d by simp
qed


section \<open>The labels of the program\<close>

text \<open>
  The column names, category labels and sheet names of the source are Korean text. Each
  is given here as its UTF-8 bytes, under a romanised name.
\<close>

text \<open>the source's brand column, '[' U+BE0C U+B79C U+B4DC ']' (beuraendeu, brand)\<close>

definition COL_BRAND :: string where
  "COL_BRAND = [CHR 0x5B, CHR 0xEB, CHR 0xB8, CHR 0x8C, CHR 0xEB, CHR 0x9E, CHR 0x9C, CHR 0xEB,
     CHR 0x93, CHR 0x9C, CHR 0x5D]"

text \<open>the sales-channel column, '[' U+B9E4 U+CD9C U+CC98 ']' (maechulcheo)\<close>

definition COL_MALL :: string where
  "COL_MALL = [CHR 0x5B, CHR 0xEB, CHR 0xA7, CHR 0xA4, CHR 0xEC, CHR 0xB6, CHR 0x9C, CHR 0xEC,
     CHR 0xB2, CHR 0x98, CHR 0x5D]"

text \<open>the shipment-type column, '[' U+D0DD U+BC30 U+C0AC ']' (taekbaesa)\<close>

definition COL_TYPE :: string where
  "COL_TYPE = [CHR 0x5B, CHR 0xED, CHR 0x83, CHR 0x9D, CHR 0xEB, CHR 0xB0, CHR 0xB0, CHR 0xEC,
     CHR 0x82, CHR 0xAC, CHR 0x5D]"

text \<open>the new-category column, U+AD6C U+BD84 '(new)' (gubun)\<close>

definition GUBUN_NEW :: string where
  "GUBUN_NEW = [CHR 0xEA, CHR 0xB5, CHR 0xAC, CHR 0xEB, CHR 0xB6, CHR 0x84, CHR 0x28, CHR 0x6E,
     CHR 0x65, CHR 0x77, CHR 0x29]"

text \<open>U+AE30 U+D0C0 (gita, other)\<close>

definition GITA :: string where
  "GITA = [CHR 0xEA, CHR 0xB8, CHR 0xB0, CHR 0xED, CHR 0x83, CHR 0x80]"

text \<open>the data-source column, U+C790 U+B8CC U+CD9C U+CC98 (jaryo chulcheo)\<close>

definition JARYO_CHULCHEO :: string where
  "JARYO_CHULCHEO = [CHR 0xEC, CHR 0x9E, CHR 0x90, CHR 0xEB, CHR 0xA3, CHR 0x8C, CHR 0xEC,
     CHR 0xB6, CHR 0x9C, CHR 0xEC, CHR 0xB2, CHR 0x98]"

text \<open>the data-source label of shipping rows\<close>

definition SRC_SHIPPING :: string where
  "SRC_SHIPPING = [CHR 0xEC, CHR 0x82, CHR 0xBC, CHR 0xEC, CHR 0x9D, CHR 0xBC, CHR 0x20,
     CHR 0xEC, CHR 0xB6, CHR 0x9C, CHR 0xEA, CHR 0xB3, CHR 0xA0, CHR 0xEB, CHR 0x8D, CHR 0xB0,
     CHR 0xEC, CHR 0x9D, CHR 0xB4, CHR 0xED, CHR 0x84, CHR 0xB0]"

text \<open>the data-source label of return rows\<close>

definition SRC_RETURN :: string where
  "SRC_RETURN = [CHR 0xEC, CHR 0x82, CHR 0xBC, CHR 0xEC, CHR 0x9D, CHR 0xBC, CHR 0x20,
     CHR 0xEB, CHR 0xB0, CHR 0x98, CHR 0xED, CHR 0x92, CHR 0x88, CHR 0xEB, CHR 0x8D, CHR 0xB0,
     CHR 0xEC, CHR 0x9D, CHR 0xB4, CHR 0xED, CHR 0x84, CHR 0xB0]"

text \<open>the data-source label of receiving rows\<close>

definition SRC_RECEIVING :: string where
  "SRC_RECEIVING = [CHR 0xEC, CHR 0x82, CHR 0xBC, CHR 0xEC, CHR 0x9D, CHR 0xBC, CHR 0x20,
     CHR 0xEC, CHR 0x9E, CHR 0x85, CHR 0xEA, CHR 0xB3, CHR 0xA0, CHR 0xEB, CHR 0x8D, CHR 0xB0,
     CHR 0xEC, CHR 0x9D, CHR 0xB4, CHR 0xED, CHR 0x84, CHR 0xB0]"

text \<open>the unit column, U+B2E8 U+C704 (danwi)\<close>

definition DANWI :: string where
  "DANWI = [CHR 0xEB, CHR 0x8B, CHR 0xA8, CHR 0xEC, CHR 0x9C, CHR 0x84]"

text \<open>the canonical unit column, U+B2E8 U+C704 '(EA)'\<close>

definition DANWI_EA :: string where
  "DANWI_EA = [CHR 0xEB, CHR 0x8B, CHR 0xA8, CHR 0xEC, CHR 0x9C, CHR 0x84, CHR 0x28, CHR 0x45,
     CHR 0x41, CHR 0x29]"

text \<open>the date column, U+C77C U+C790 (ilja)\<close>

definition ILJA :: string where
  "ILJA = [CHR 0xEC, CHR 0x9D, CHR 0xBC, CHR 0xEC, CHR 0x9E, CHR 0x90]"

text \<open>the order-number column (jumun beonho)\<close>

definition JUMUN_BEONHO :: string where
  "JUMUN_BEONHO = [CHR 0xEC, CHR 0xA3, CHR 0xBC, CHR 0xEB, CHR 0xAC, CHR 0xB8, CHR 0xEB,
     CHR 0xB2, CHR 0x88, CHR 0xED, CHR 0x98, CHR 0xB8]"

text \<open>the original-category column, U+AD6C U+BD84 (gubun)\<close>

definition GUBUN :: string where
  "GUBUN = [CHR 0xEA, CHR 0xB5, CHR 0xAC, CHR 0xEB, CHR 0xB6, CHR 0x84]"

text \<open>the product-code column (sangpum kodeu)\<close>

definition SANGPUM_CODE :: string where
  "SANGPUM_CODE = [CHR 0xEC, CHR 0x83, CHR 0x81, CHR 0xED, CHR 0x92, CHR 0x88, CHR 0xEC,
     CHR 0xBD, CHR 0x94, CHR 0xEB, CHR 0x93, CHR 0x9C]"

text \<open>the product-name column (pummokmyeong)\<close>

definition PUMMOKMYEONG :: string where
  "PUMMOKMYEONG = [CHR 0xED, CHR 0x92, CHR 0x88, CHR 0xEB, CHR 0xAA, CHR 0xA9, CHR 0xEB,
     CHR 0xAA, CHR 0x85]"

text \<open>the quantity column, U+C218 U+B7C9 (suryang)\<close>

definition SURYANG :: string where
  "SURYANG = [CHR 0xEC, CHR 0x88, CHR 0x98, CHR 0xEB, CHR 0x9F, CHR 0x89]"

text \<open>the shipment-type column of the type-anomaly table (chulgo taip)\<close>

definition CHULGO_TYPE :: string where
  "CHULGO_TYPE = [CHR 0xEC, CHR 0xB6, CHR 0x9C, CHR 0xEA, CHR 0xB3, CHR 0xA0, CHR 0xED,
     CHR 0x83, CHR 0x80, CHR 0xEC, CHR 0x9E, CHR 0x85]"

text \<open>U+BC18 U+D488 (banpum, return)\<close>

definition BANPUM :: string where
  "BANPUM = [CHR 0xEB, CHR 0xB0, CHR 0x98, CHR 0xED, CHR 0x92, CHR 0x88]"

text \<open>U+BD88 U+B7C9 (bullyang, defective)\<close>

definition BULLYANG :: string where
  "BULLYANG = [CHR 0xEB, CHR 0xB6, CHR 0x88, CHR 0xEB, CHR 0x9F, CHR 0x89]"

text \<open>the status column (sangtae)\<close>

definition SANGTAE :: string where
  "SANGTAE = [CHR 0xEC, CHR 0x83, CHR 0x81, CHR 0xED, CHR 0x83, CHR 0x9C]"

text \<open>the remarks column (sangpum bigo)\<close>

definition SANGPUM_BIGO :: string where
  "SANGPUM_BIGO = [CHR 0xEC, CHR 0x83, CHR 0x81, CHR 0xED, CHR 0x92, CHR 0x88, CHR 0xEB,
     CHR 0xB9, CHR 0x84, CHR 0xEA, CHR 0xB3, CHR 0xA0]"

text \<open>the canonical brand column (beuraendeu)\<close>

definition BRAND :: string where
  "BRAND = [CHR 0xEB, CHR 0xB8, CHR 0x8C, CHR 0xEB, CHR 0x9E, CHR 0x9C, CHR 0xEB, CHR 0x93,
     CHR 0x9C]"

text \<open>the summary sheet (jeongsan yoyak)\<close>

definition SHEET_SUMMARY :: string where
  "SHEET_SUMMARY = [CHR 0xEC, CHR 0xA0, CHR 0x95, CHR 0xEC, CHR 0x82, CHR 0xB0, CHR 0xEC,
     CHR 0x9A, CHR 0x94, CHR 0xEC, CHR 0x95, CHR 0xBD]"

text \<open>the mall-anomaly sheet (maechulcheo isang)\<close>

definition SHEET_STORE_ABNORMAL :: string where
  "SHEET_STORE_ABNORMAL = [CHR 0xEB, CHR 0xA7, CHR 0xA4, CHR 0xEC, CHR 0xB6, CHR 0x9C,
     CHR 0xEC, CHR 0xB2, CHR 0x98, CHR 0x20, CHR 0xEC, CHR 0x9D, CHR 0xB4, CHR 0xEC, CHR 0x83,
     CHR 0x81]"

text \<open>the type-anomaly sheet (chulgo taip isang)\<close>

definition SHEET_TYPE_ABNORMAL :: string where
  "SHEET_TYPE_ABNORMAL = [CHR 0xEC, CHR 0xB6, CHR 0x9C, CHR 0xEA, CHR 0xB3, CHR 0xA0, CHR 0xED,
     CHR 0x83, CHR 0x80, CHR 0xEC, CHR 0x9E, CHR 0x85, CHR 0x20, CHR 0xEC, CHR 0x9D, CHR 0xB4,
     CHR 0xEC, CHR 0x83, CHR 0x81]"

text \<open>the receiving-anomaly sheet (ipgo teugi sahang)\<close>

definition SHEET_PECULIAR :: string where
  "SHEET_PECULIAR = [CHR 0xEC, CHR 0x9E, CHR 0x85, CHR 0xEA, CHR 0xB3, CHR 0xA0, CHR 0x20,
     CHR 0xED, CHR 0x8A, CHR 0xB9, CHR 0xEC, CHR 0x9D, CHR 0xB4, CHR 0xEC, CHR 0x82, CHR 0xAC,
     CHR 0xED, CHR 0x95, CHR 0xAD]"

text \<open>the free-receiving sheet (musang jeongsang ipgo)\<close>

definition SHEET_FREE :: string where
  "SHEET_FREE = [CHR 0xEB, CHR 0xAC, CHR 0xB4, CHR 0xEC, CHR 0x83, CHR 0x81, CHR 0x20,
     CHR 0xEC, CHR 0xA0, CHR 0x95, CHR 0xEC, CHR 0x83, CHR 0x81, CHR 0x20, CHR 0xEC, CHR 0x9E,
     CHR 0x85, CHR 0xEA, CHR 0xB3, CHR 0xA0]"

text \<open>the validation sheet, U+AC80 U+C99D (geomjeung)\<close>

definition SHEET_VALIDATION :: string where
  "SHEET_VALIDATION = [CHR 0xEA, CHR 0xB2, CHR 0x80, CHR 0xEC, CHR 0xA6, CHR 0x9D]"

text \<open>the item column of the tally (hangmok)\<close>

definition HANGMOK :: string where
  "HANGMOK = [CHR 0xED, CHR 0x95, CHR 0xAD, CHR 0xEB, CHR 0xAA, CHR 0xA9]"

text \<open>the count column of the tally (geonsu)\<close>

definition GEONSU :: string where
  "GEONSU = [CHR 0xEA, CHR 0xB1, CHR 0xB4, CHR 0xEC, CHR 0x88, CHR 0x98]"

text \<open>the tally's label of normal shipments (ilban chulgo)\<close>

definition ILBAN_CHULGO :: string where
  "ILBAN_CHULGO = [CHR 0xEC, CHR 0x9D, CHR 0xBC, CHR 0xEB, CHR 0xB0, CHR 0x98, CHR 0x20,
     CHR 0xEC, CHR 0xB6, CHR 0x9C, CHR 0xEA, CHR 0xB3, CHR 0xA0]"

text \<open>the tally's label of the total\<close>

definition TOTAL_CHULGO :: string where
  "TOTAL_CHULGO = [CHR 0xEC, CHR 0xB2, CHR 0x98, CHR 0xEB, CHR 0xA6, CHR 0xAC, CHR 0xEB,
     CHR 0x90, CHR 0x9C, CHR 0x20, CHR 0xEC, CHR 0xB4, CHR 0x9D, CHR 0x20, CHR 0xEC, CHR 0xB6,
     CHR 0x9C, CHR 0xEA, CHR 0xB3, CHR 0xA0, CHR 0xEA, CHR 0xB1, CHR 0xB4, CHR 0xEC, CHR 0x88,
     CHR 0x98, CHR 0x20, CHR 0x28, CHR 0xEA, CHR 0xB2, CHR 0x80, CHR 0xEC, CHR 0xA6, CHR 0x9D,
     CHR 0xEC, CHR 0x9A, CHR 0xA9, CHR 0x29]"

lemmas label_defs =
  COL_BRAND_def COL_MALL_def COL_TYPE_def GUBUN_NEW_def GITA_def
  JARYO_CHULCHEO_def SRC_SHIPPING_def SRC_RETURN_def SRC_RECEIVING_def DANWI_def
  DANWI_EA_def ILJA_def JUMUN_BEONHO_def GUBUN_def SANGPUM_CODE_def
  PUMMOKMYEONG_def SURYANG_def CHULGO_TYPE_def BANPUM_def BULLYANG_def
  SANGTAE_def SANGPUM_BIGO_def BRAND_def SHEET_SUMMARY_def SHEET_STORE_ABNORMAL_def
  SHEET_TYPE_ABNORMAL_def SHEET_PECULIAR_def SHEET_FREE_def SHEET_VALIDATION_def HANGMOK_def
  GEONSU_def ILBAN_CHULGO_def TOTAL_CHULGO_def


section \<open>Text, comparisons and configuration\<close>

subsection \<open>Python's string operations\<close>

text \<open>\<^verbatim>\<open>s.startswith(p)\<close> and \<^verbatim>\<open>s.endswith(p)\<close>.\<close>

fun startswith :: "string \<Rightarrow> string \<Rightarrow> bool" where
  "startswith s [] = True"
| "startswith [] (p # ps) = False"
| "startswith (c # cs) (p # ps) = (c = p \<and> startswith cs ps)"

definition endswith :: "string \<Rightarrow> string \<Rightarrow> bool" where
  "endswith s p = startswith (rev s) (rev p)"

text \<open>\<^verbatim>\<open>k in s\<close>: \<open>k\<close> occurs in \<open>s\<close> as a run of consecutive characters.\<close>

fun str_contains :: "string \<Rightarrow> string \<Rightarrow> bool" where
  "str_contains [] k = (k = [])"
| "str_contains (c # cs) k = (startswith (c # cs) k \<or> str_contains cs k)"

text \<open>
  \<^verbatim>\<open>s.replace(old, new)\<close> for a non-empty \<open>old\<close>: the occurrences are replaced from the
  left, without overlap. The first argument counts the characters of a match still to
  be skipped.
\<close>

fun str_replace_from :: "nat \<Rightarrow> string \<Rightarrow> string \<Rightarrow> string \<Rightarrow> string" where
  "str_replace_from n old new [] = []"
| "str_replace_from (Suc n) old new (c # cs) = str_replace_from n old new cs"
| "str_replace_from 0 old new (c # cs) =
     (if startswith (c # cs) old then new @ str_replace_from (length old - 1) old new cs
      else c # str_replace_from 0 old new cs)"

definition str_replace :: "string \<Rightarrow> string \<Rightarrow> string \<Rightarrow> string" where
  "str_replace old new s = str_replace_from 0 old new s"

text \<open>
  \<^verbatim>\<open>s.strip()\<close>. The whitespace of the model is the ASCII whitespace of Python
  (tab to carriage return, the four separators 0x1C to 0x1F, and the space).
\<close>

definition is_space :: "char \<Rightarrow> bool" where
  "is_space c = (c \<in> set [CHR 0x09, CHR 0x0A, CHR 0x0B, CHR 0x0C, CHR 0x0D,
                           CHR 0x1C, CHR 0x1D, CHR 0x1E, CHR 0x1F, CHR 0x20])"

definition strip :: "string \<Rightarrow> string" where
  "strip s = rev (dropWhile is_space (rev (dropWhile is_space s)))"

text \<open>\<^verbatim>\<open>sep.join(xs)\<close>.\<close>

fun join :: "string \<Rightarrow> string list \<Rightarrow> string" where
  "join sep [] = []"
| "join sep [x] = x"
| "join sep (x # y # ys) = x @ sep @ join sep (y # ys)"

text \<open>\<^verbatim>\<open>s.split(d)\<close> for a single character \<open>d\<close>: never the empty list.\<close>

fun split_char :: "char \<Rightarrow> string \<Rightarrow> string list" where
  "split_char d [] = [[]]"
| "split_char d (c # cs) =
     (if c = d then [] # split_char d cs
      else (case split_char d cs of w # ws \<Rightarrow> (c # w) # ws | [] \<Rightarrow> [[c]]))"

text \<open>
  The text after the first occurrence of \<open>sep\<close>, when there is one: for a non-empty
  \<open>sep\<close>, \<^verbatim>\<open>x.split(sep, 1)[1] if sep in x\<close>.
\<close>

fun after_first :: "string \<Rightarrow> string \<Rightarrow> string option" where
  "after_first sep [] = (if sep = [] then Some [] else None)"
| "after_first sep (c # cs) =
     (if startswith (c # cs) sep then Some (drop (length sep) (c # cs)) else after_first sep cs)"

text \<open>
  \<^verbatim>\<open>s.split(sep)\<close> for a non-empty separator of any length, with the same skip counter
  as \<open>str_replace_from\<close>; the second argument is the segment being read, reversed.
\<close>

fun split_from :: "nat \<Rightarrow> string \<Rightarrow> string \<Rightarrow> string \<Rightarrow> string list" where
  "split_from n acc sep [] = [rev acc]"
| "split_from (Suc n) acc sep (c # cs) = split_from n acc sep cs"
| "split_from 0 acc sep (c # cs) =
     (if startswith (c # cs) sep then rev acc # split_from (length sep - 1) [] sep cs
      else split_from 0 (c # acc) sep cs)"

definition str_split :: "string \<Rightarrow> string \<Rightarrow> string list" where
  "str_split sep s = split_from 0 [] sep s"

subsection \<open>Cell operations of pandas\<close>

text \<open>\<^verbatim>\<open>astype(str)\<close>: text stays, any other cell prints.\<close>

definition astype_str :: "pandas \<Rightarrow> cell \<Rightarrow> string" where
  "astype_str L c = (case c of CStr s \<Rightarrow> s | _ \<Rightarrow> str_of L c)"

text \<open>
  \<^verbatim>\<open>series == v\<close> is false at a missing cell; \<^verbatim>\<open>series != v\<close> is its negation, and
  \<^verbatim>\<open>series.isin(vs)\<close> is membership.
\<close>

definition cell_eq :: "cell \<Rightarrow> cell \<Rightarrow> bool" where
  "cell_eq c v = (c = v \<and> c \<noteq> CNull)"

definition isin :: "cell \<Rightarrow> cell list \<Rightarrow> bool" where
  "isin c vs = (c \<in> set vs)"

text \<open>
  \<^verbatim>\<open>series.str.contains(pat, na=False)\<close>, for a pattern that is an alternation of
  literal texts: the pattern is cut at every \<^verbatim>\<open>|\<close>, and a text cell matches when it
  contains one of the alternatives. Keywords with other regular-expression
  metacharacters are outside the model. A cell that is not text does not match.
\<close>

definition regex_search :: "string \<Rightarrow> string \<Rightarrow> bool" where
  "regex_search pat s = (\<exists>alt \<in> set (split_char (CHR ''|'') pat). str_contains s alt)"

definition str_contains_cell :: "string \<Rightarrow> cell \<Rightarrow> bool" where
  "str_contains_cell pat c = (case c of CStr s \<Rightarrow> regex_search pat s | _ \<Rightarrow> False)"

text \<open>
  Brand normalisation, \<^verbatim>\<open>.astype(str).str.split(':').str[0].str.strip()\<close>: the text
  before the first colon, stripped.
\<close>

definition normalize_brand :: "pandas \<Rightarrow> cell \<Rightarrow> cell" where
  "normalize_brand L c = CStr (strip (takeWhile (\<lambda>x. x \<noteq> CHR '':'') (astype_str L c)))"

subsection \<open>Configuration\<close>

text \<open>
  \<^verbatim>\<open>config.json\<close> is read once into \<^verbatim>\<open>CONFIG\<close>. A filter value is a scalar or a list.
  Dictionaries whose order of entries matters to the code (\<^verbatim>\<open>.items()\<close>) are
  association lists.
\<close>

datatype json_val = JVal cell | JList "cell list"

record seeding =
  seed_brand :: string
  seed_mall :: string
  seed_category :: string

record shipping_config =
  shipping_date_col :: string
  shipping_filters :: "(string \<times> json_val) list"
  normal_type :: "cell list"
  normal_mall_keywords :: "string list"
  mall_list :: "cell list"
  category_map :: "(string \<times> string) list"
  seeding_map :: "seeding option"
  shipping_final_columns :: "(string \<times> string) list"

record return_config =
  return_date_col :: string
  brand_col :: string
  qty_col :: string
  status_col :: string
  bad_pason_map :: "(string \<times> string) list"
  return_final_columns :: "(string \<times> string) list"

record receiving_config =
  receiving_date_col :: string
  type_col :: string
  free_types :: "cell list"
  peculiar_filters :: "(string \<times> json_val) list"
  receiving_qty_col :: string
  final_columns_peculiar :: "(string \<times> string) list"
  final_columns_free :: "(string \<times> string) list"

record config =
  excluded_brands :: "cell list"
  shipping :: shipping_config
  returns :: return_config
  receiving :: receiving_config

section \<open>The shipping classifier\<close>

text \<open>Lines 52 and 53: the brand column normalised, the excluded brands dropped.\<close>

definition exclude_brands :: "pandas \<Rightarrow> cell list \<Rightarrow> string \<Rightarrow> dataframe \<Rightarrow> error + dataframe" where
  "exclude_brands L excluded bcol df =
     (case get_col df bcol of
        Inl e \<Rightarrow> Inl e
      | Inr vs \<Rightarrow>
          let df1 = set_col bcol (map (normalize_brand L) vs) df
          in Inr (select_rows (map (\<lambda>c. \<not> isin c excluded) (the_col df1 bcol)) df1))"

text \<open>
  \<^verbatim>\<open>series != val\<close> in the \<^verbatim>\<open>_exclude\<close> branch: against a list the comparison is
  element by element and raises \<^verbatim>\<open>ValueError\<close> when the lengths differ.
\<close>

definition ne_mask :: "cell list \<Rightarrow> json_val \<Rightarrow> error + bool list" where
  "ne_mask vs val =
     (case val of
        JVal v \<Rightarrow> Inr (map (\<lambda>c. \<not> cell_eq c v) vs)
      | JList l \<Rightarrow> if length l = length vs then Inr (map (\<lambda>(c, v). \<not> cell_eq c v) (zip vs l))
                   else Inl ValueError)"

text \<open>The loop of lines 55 to 62 over \<^verbatim>\<open>config['filters'].items()\<close>.\<close>

fun apply_filters :: "(string \<times> json_val) list \<Rightarrow> dataframe \<Rightarrow> error + dataframe" where
  "apply_filters [] df = Inr df"
| "apply_filters ((col, val) # rest) df =
     (if startswith col ''_'' then apply_filters rest df
      else if endswith col ''_exclude'' then
        (case get_col df (str_replace ''_exclude'' [] col) of
           Inl e \<Rightarrow> Inl e
         | Inr vs \<Rightarrow>
             (case ne_mask vs val of
                Inl e \<Rightarrow> Inl e
              | Inr m \<Rightarrow> apply_filters rest (select_rows m df)))
      else
        (case get_col df col of
           Inl e \<Rightarrow> Inl e
         | Inr vs \<Rightarrow>
             (case val of
                JList l \<Rightarrow> apply_filters rest (select_rows (map (\<lambda>c. \<not> isin c l) vs) df)
              | JVal v \<Rightarrow> apply_filters rest (select_rows (map (\<lambda>c. cell_eq c v) vs) df))))"

text \<open>Lines 52 to 62: what is left of the previous-month rows for classification.\<close>

definition shipping_domain_filter :: "pandas \<Rightarrow> config \<Rightarrow> dataframe \<Rightarrow> error + dataframe" where
  "shipping_domain_filter L cfg df =
     (case exclude_brands L (excluded_brands cfg) COL_BRAND df of
        Inl e \<Rightarrow> Inl e
      | Inr df1 \<Rightarrow> apply_filters (shipping_filters (shipping cfg)) df1)"

text \<open>Line 64: \<^verbatim>\<open>x.split(': ', 1)[1] if ': ' in x else x\<close> on the channel as text.\<close>

definition normalize_mall :: "pandas \<Rightarrow> cell \<Rightarrow> cell" where
  "normalize_mall L c =
     (let x = astype_str L c in case after_first '': '' x of Some y \<Rightarrow> CStr y | None \<Rightarrow> CStr x)"

text \<open>
  Lines 67 to 69. \<^verbatim>\<open>normal_type[0]\<close> raises \<^verbatim>\<open>IndexError\<close> on an empty list; the type
  column has been read by then.
\<close>

definition cond_type_normal :: "shipping_config \<Rightarrow> cell list \<Rightarrow> bool list" where
  "cond_type_normal sc types = map (\<lambda>c. isin c (normal_type sc)) types"

definition cond_mall_keywords :: "shipping_config \<Rightarrow> cell list \<Rightarrow> bool list" where
  "cond_mall_keywords sc malls =
     map (str_contains_cell (join ''|'' (normal_mall_keywords sc))) malls"

definition is_normal :: "shipping_config \<Rightarrow> cell list \<Rightarrow> cell list \<Rightarrow> error + bool list" where
  "is_normal sc types malls =
     (case normal_type sc of
        [] \<Rightarrow> Inl IndexError
      | first # others \<Rightarrow>
          Inr (map (\<lambda>((t, kw), tn). (cell_eq t first \<and> kw) \<or> tn)
                 (zip (zip types (cond_mall_keywords sc malls)) (cond_type_normal sc types))))"

text \<open>\<^verbatim>\<open>assign_category\<close>, lines 77 to 84.\<close>

definition lookup_category :: "(string \<times> string) list \<Rightarrow> cell \<Rightarrow> cell" where
  "lookup_category cm c =
     (let dflt = (case map_of cm ''default'' of Some d \<Rightarrow> d | None \<Rightarrow> GITA)
      in case c of
           CStr s \<Rightarrow> (case map_of cm s of Some v \<Rightarrow> CStr v | None \<Rightarrow> CStr dflt)
         | _ \<Rightarrow> CStr dflt)"

definition assign_category :: "dataframe \<Rightarrow> (string \<times> string) list \<Rightarrow> seeding option \<Rightarrow> error + dataframe" where
  "assign_category d cm sm =
     (if df_empty d then Inr d
      else case get_col d COL_MALL of
        Inl e \<Rightarrow> Inl e
      | Inr malls \<Rightarrow>
          let d1 = set_col GUBUN_NEW (map (lookup_category cm) malls) d
          in (case sm of
                None \<Rightarrow> Inr d1
              | Some s \<Rightarrow>
                  (case get_col d1 COL_BRAND of
                     Inl e \<Rightarrow> Inl e
                   | Inr brands \<Rightarrow>
                       (case get_col d1 COL_MALL of
                          Inl e \<Rightarrow> Inl e
                        | Inr malls1 \<Rightarrow>
                            Inr (set_col GUBUN_NEW
                                  (map (\<lambda>((b, m), g).
                                          if cell_eq b (CStr (seed_brand s)) \<and> cell_eq m (CStr (seed_mall s))
                                          then CStr (seed_category s) else g)
                                     (zip (zip brands malls1) (the_col d1 GUBUN_NEW)))
                                  d1)))))"

text \<open>
  The renaming dictionary of \<^verbatim>\<open>finalize\<close>: source column to canonical name, from the
  entries of the column map whose key does not start with an underscore, a later entry
  replacing an earlier one for the same source column, then the three fixed entries.
  \<open>extra\<close> holds the fixed entries, which \<^verbatim>\<open>update\<close> writes last: they are looked up
  first.
\<close>

definition rename_map :: "(string \<times> string) list \<Rightarrow> (string \<times> string) list \<Rightarrow> (string \<times> string) list" where
  "rename_map extra cols_map =
     extra @ rev (map (\<lambda>(k, v). (v, k)) (filter (\<lambda>(k, v). \<not> startswith k ''_'') cols_map))"

text \<open>\<^verbatim>\<open>df.rename(columns=rm)\<close>: a label without an entry stays.\<close>

definition rename_label :: "(string \<times> string) list \<Rightarrow> string \<Rightarrow> string" where
  "rename_label rm k = (case map_of rm k of Some k' \<Rightarrow> k' | None \<Rightarrow> k)"

definition rename_columns :: "(string \<times> string) list \<Rightarrow> dataframe \<Rightarrow> dataframe" where
  "rename_columns rm df = df\<lparr>data := map (\<lambda>(k, vs). (rename_label rm k, vs)) (data df)\<rparr>"

text \<open>\<^verbatim>\<open>df[col] = value\<close> with one value for every row.\<close>

definition set_const :: "string \<Rightarrow> cell \<Rightarrow> dataframe \<Rightarrow> dataframe" where
  "set_const c v df = set_col c (replicate (df_len df) v) df"

text \<open>The loop that adds every missing column of the order as a column of \<^verbatim>\<open>pd.NA\<close>.\<close>

fun fill_missing :: "string list \<Rightarrow> dataframe \<Rightarrow> dataframe" where
  "fill_missing [] df = df"
| "fill_missing (c # cs) df =
     fill_missing cs (if c \<in> set (columns df) then df else set_const c CNull df)"

text \<open>\<^verbatim>\<open>df[labels]\<close>: for each label in turn, the columns that carry it.\<close>

definition select_cols :: "string list \<Rightarrow> dataframe \<Rightarrow> dataframe" where
  "select_cols labels df =
     df\<lparr>data := concat (map (\<lambda>c. filter (\<lambda>(k, vs). k = c) (data df)) labels)\<rparr>"

definition col_order :: "string list" where
  "col_order = [ILJA, JUMUN_BEONHO, GUBUN_NEW, GUBUN, SANGPUM_CODE, PUMMOKMYEONG, DANWI_EA,
                SURYANG, JARYO_CHULCHEO]"

definition fixed_renames :: "(string \<times> string) list" where
  "fixed_renames = [(GUBUN_NEW, GUBUN_NEW), (JARYO_CHULCHEO, JARYO_CHULCHEO), (DANWI, DANWI_EA)]"

text \<open>\<^verbatim>\<open>finalize\<close> of the shipping classifier, lines 89 to 107.\<close>

definition shipping_finalize :: "dataframe \<Rightarrow> (string \<times> string) list \<Rightarrow> bool \<Rightarrow> dataframe" where
  "shipping_finalize d cols_map is_abnormal =
     (if df_empty d then pd_DataFrame
      else
        let d1 = set_const DANWI (CNum 1) (set_const JARYO_CHULCHEO (CStr SRC_SHIPPING) d);
            final_df = rename_columns (rename_map fixed_renames cols_map) d1;
            order = (if is_abnormal then CHULGO_TYPE # col_order else col_order);
            final_df1 = fill_missing order final_df
        in select_cols (filter (\<lambda>c. c \<in> set (columns final_df1)) order) final_df1)"

text \<open>Lines 64 to 111: the split into the three tables.\<close>

definition shipping_classify ::
  "pandas \<Rightarrow> shipping_config \<Rightarrow> dataframe \<Rightarrow> error + (dataframe \<times> dataframe \<times> dataframe)" where
  "shipping_classify L sc df0 =
     (case get_col df0 COL_MALL of
        Inl e \<Rightarrow> Inl e
      | Inr raw_malls \<Rightarrow>
          let df = set_col COL_MALL (map (normalize_mall L) raw_malls) df0
          in (case get_col df COL_TYPE of
                Inl e \<Rightarrow> Inl e
              | Inr types \<Rightarrow>
                  (case is_normal sc types (the_col df COL_MALL) of
                     Inl e \<Rightarrow> Inl e
                   | Inr normal \<Rightarrow>
                       let df_normal_candidate = select_rows normal df;
                           df_shipping_type_abnormal = select_rows (map Not normal) df;
                           listed = map (\<lambda>c. isin c (mall_list sc)) (the_col df_normal_candidate COL_MALL);
                           df_main = select_rows listed df_normal_candidate;
                           df_store_abnormal = select_rows (map Not listed) df_normal_candidate
                       in (case assign_category df_main (category_map sc) (seeding_map sc) of
                             Inl e \<Rightarrow> Inl e
                           | Inr df_main1 \<Rightarrow>
                               (case assign_category df_store_abnormal (category_map sc) (seeding_map sc) of
                                  Inl e \<Rightarrow> Inl e
                                | Inr df_store_abnormal1 \<Rightarrow>
                                    Inr (shipping_finalize df_main1 (shipping_final_columns sc) False,
                                         shipping_finalize df_shipping_type_abnormal (shipping_final_columns sc) True,
                                         shipping_finalize df_store_abnormal1 (shipping_final_columns sc) False))))))"

text \<open>\<^verbatim>\<open>process_shipping_data\<close>.\<close>

definition process_shipping_data ::
  "pandas \<Rightarrow> config \<Rightarrow> int \<times> nat \<Rightarrow> dataframe \<Rightarrow> error + (dataframe \<times> dataframe \<times> dataframe)" where
  "process_shipping_data L cfg today df0 =
     (if df_empty df0 then Inr (pd_DataFrame, pd_DataFrame, pd_DataFrame)
      else
        let df = filter_by_previous_month L today df0 (shipping_date_col (shipping cfg))
        in if df_empty df then Inr (pd_DataFrame, pd_DataFrame, pd_DataFrame)
           else (case shipping_domain_filter L cfg df of
                   Inl e \<Rightarrow> Inl e
                 | Inr df1 \<Rightarrow> shipping_classify L (shipping cfg) df1))"

text \<open>
  The input of the classification proper: the rows of the previous month that pass the
  brand exclusion and the configured filters. Where \<^verbatim>\<open>process_shipping_data\<close> returns
  early, no row is left.
\<close>

definition shipping_input :: "pandas \<Rightarrow> config \<Rightarrow> int \<times> nat \<Rightarrow> dataframe \<Rightarrow> error + dataframe" where
  "shipping_input L cfg today df0 =
     (let df = filter_by_previous_month L today df0 (shipping_date_col (shipping cfg))
      in if df_empty df then Inr df else shipping_domain_filter L cfg df)"

subsection \<open>A configuration and an export\<close>

text \<open>
  A small configuration, and a shipping export of seven rows and a summary row for a run
  in June 2024: five rows of May, of which three are of a normal type and a listed
  channel, one of a normal type and an unlisted channel, and one of another type.
\<close>

definition demo_shipping :: shipping_config where
  "demo_shipping = \<lparr>
     shipping_date_col = ''date'',
     shipping_filters = [(''_comment'', JVal (CStr ''kept for the record'')),
                         (''state'', JVal (CStr ''done'')),
                         (''kind'', JList [CStr ''sample'']),
                         (''owner_exclude'', JVal (CStr ''staff''))],
     normal_type = [CStr ''parcel'', CStr ''quick''],
     normal_mall_keywords = [''shop''],
     mall_list = [CStr ''shopA'', CStr ''shopB''],
     category_map = [(''shopA'', ''online''), (''default'', ''offline'')],
     seeding_map = Some \<lparr>seed_brand = ''acme'', seed_mall = ''shopB'', seed_category = ''seeding''\<rparr>,
     shipping_final_columns = [(ILJA, ''date''), (JUMUN_BEONHO, ''order''), (SURYANG, ''qty''),
                               (CHULGO_TYPE, COL_TYPE), (''_note'', ''state'')]\<rparr>"

definition demo_config :: config where
  "demo_config = \<lparr>
     excluded_brands = [CStr ''internal''],
     shipping = demo_shipping,
     returns = \<lparr>return_date_col = ''date'', brand_col = ''brand'', qty_col = ''qty'',
                 status_col = ''status'',
                 bad_pason_map = [(''broken'', BULLYANG), (''torn'', ''damaged'')],
                 return_final_columns = [(ILJA, ''date''), (JUMUN_BEONHO, ''order''), (SURYANG, ''qty'')]\<rparr>,
     receiving = \<lparr>receiving_date_col = ''date'', type_col = ''kind'',
                   free_types = [CStr ''free''],
                   peculiar_filters = [(''kind'', JList [CStr ''normal''])],
                   receiving_qty_col = ''qty'',
                   final_columns_peculiar = [(ILJA, ''date''), (GUBUN, ''class''), (SURYANG, ''qty'')],
                   final_columns_free = [(ILJA, ''date''), (GUBUN, ''class''), (SURYANG, ''qty'')]\<rparr>\<rparr>"

definition demo_shipments :: dataframe where
  "demo_shipments = \<lparr>index = [0, 1, 2, 3, 4, 5, 6, 7],
     data = [(''date'', [CDate 2024 5 2, CDate 2024 5 3, CDate 2024 5 9, CDate 2024 5 17,
                         CDate 2024 5 20, CDate 2024 4 30, CDate 2024 6 1, CStr ''total'']),
             (''order'', [CNum 101, CNum 102, CNum 103, CNum 104, CNum 105, CNum 106, CNum 107, CNull]),
             (COL_BRAND, [CStr ''acme : A'', CStr ''acme'', CStr ''bolt:B'', CStr ''acme'',
                          CStr ''bolt'', CStr ''acme'', CStr ''acme'', CNull]),
             (COL_MALL, [CStr ''1: shopA'', CStr ''shopB'', CStr ''shopA'', CStr ''2: corner'',
                         CStr ''shopA'', CStr ''shopA'', CStr ''shopA'', CNull]),
             (COL_TYPE, [CStr ''parcel'', CStr ''parcel'', CStr ''quick'', CStr ''parcel'',
                         CStr ''pickup'', CStr ''parcel'', CStr ''parcel'', CNull]),
             (''state'', [CStr ''done'', CStr ''done'', CStr ''done'', CStr ''done'',
                          CStr ''done'', CStr ''done'', CStr ''done'', CNull]),
             (''kind'', [CStr ''sale'', CStr ''sale'', CStr ''sale'', CStr ''sale'',
                         CStr ''sale'', CStr ''sale'', CStr ''sale'', CNull]),
             (''owner'', [CStr ''a'', CStr ''b'', CStr ''c'', CStr ''d'', CStr ''e'', CStr ''f'', CStr ''g'', CNull]),
             (''qty'', [CNum 1, CNum 2, CNum 3, CNum 4, CNum 5, CNum 6, CNum 7, CNum 28])]\<rparr>"


subsection \<open>Facts about text and masks\<close>

lemma startswith_iff: "startswith s p \<longleftrightarrow> (\<exists>q. s = p @ q)"
  by (induction s p rule: startswith.induct) auto

lemma str_contains_iff: "str_contains s k \<longleftrightarrow> (\<exists>p q. s = p @ k @ q)"
proof (induction s)
  case Nil show ?case by auto
next
  case (Cons c cs)
  show ?case
  proof
    assume "str_contains (c # cs) k"
    then consider "startswith (c # cs) k" | "str_contains cs k" by auto
    then show "\<exists>p q. c # cs = p @ k @ q"
    proof cases
      case 1 then obtain q where "c # cs = k @ q" by (auto simp: startswith_iff)
      then have "c # cs = [] @ k @ q" by simp
      then show ?thesis by blast
    next
      case 2 then obtain p q where "cs = p @ k @ q" using Cons.IH by auto
      then have "c # cs = (c # p) @ k @ q" by simp
      then show ?thesis by blast
    qed
  next
    assume "\<exists>p q. c # cs = p @ k @ q"
    then obtain p q where e: "c # cs = p @ k @ q" by auto
    show "str_contains (c # cs) k"
    proof (cases p)
      case Nil
      then have "startswith (c # cs) k" using e by (simp add: startswith_iff)
      then show ?thesis by simp
    next
      case (Cons a p') then have "cs = p' @ k @ q" using e by simp
      then show ?thesis using Cons.IH by auto
    qed
  qed
qed

lemma str_contains_empty [simp]: "str_contains s []"
  by (cases s) simp_all

lemma split_char_no_sep: "d \<notin> set s \<Longrightarrow> split_char d s = [s]"
  by (induction s) auto

lemma split_char_append_sep:
  "d \<notin> set x \<Longrightarrow> split_char d (x @ d # rest) = x # split_char d rest"
  by (induction x) auto

lemma split_char_join:
  "kws \<noteq> [] \<Longrightarrow> \<forall>k \<in> set kws. d \<notin> set k \<Longrightarrow> split_char d (join [d] kws) = kws"
proof (induction "[d]" kws rule: join.induct)
  case 1 then show ?case by simp
next
  case (2 x) then show ?case by (simp add: split_char_no_sep)
next
  case (3 x y ys)
  then show ?case by (simp add: split_char_append_sep)
qed

lemma regex_search_empty: "regex_search (join ''|'' []) s"
  by (simp add: regex_search_def)

lemma regex_search_keywords:
  "kws \<noteq> [] \<Longrightarrow> \<forall>k \<in> set kws. CHR ''|'' \<notin> set k \<Longrightarrow>
   regex_search (join ''|'' kws) s \<longleftrightarrow> (\<exists>k \<in> set kws. str_contains s k)"
  by (simp add: regex_search_def split_char_join)

lemma length_cond_mall_keywords [simp]: "length (cond_mall_keywords sc malls) = length malls"
  by (simp add: cond_mall_keywords_def)

lemma length_cond_type_normal [simp]: "length (cond_type_normal sc types) = length types"
  by (simp add: cond_type_normal_def)


lemma mset_select_partition:
  "length xs \<le> length m \<Longrightarrow> mset (select m xs) + mset (select (map Not m) xs) = mset xs"
proof (induction m arbitrary: xs)
  case Nil then show ?case by simp
next
  case (Cons b m) then show ?case by (cases xs) auto
qed

lemma distinct_select: "distinct xs \<Longrightarrow> distinct (select m xs)"
proof (induction m arbitrary: xs)
  case Nil then show ?case by simp
next
  case (Cons b m)
  show ?case
  proof (cases xs)
    case Nil then show ?thesis by simp
  next
    case c: (Cons x xs')
    have "set (select m xs') \<subseteq> set xs'"
      by (auto simp: select_def dest: set_zip_rightD)
    then show ?thesis using Cons c by auto
  qed
qed

lemma get_col_wf:
  "wf_df df \<Longrightarrow> get_col df c = Inr vs \<Longrightarrow>
   length vs = length (index df) \<and> c \<in> set (columns df) \<and> the_col df c = vs"
proof -
  assume wf: "wf_df df" and g: "get_col df c = Inr vs"
  then have m: "map_of (data df) c = Some vs" by (auto simp: get_col_def split: option.splits)
  then have i: "(c, vs) \<in> set (data df)" by (rule map_of_SomeD)
  then have "c \<in> set (columns df)" by (force simp: columns_def)
  then show ?thesis using wf m i by (auto simp: wf_df_def the_col_def)
qed

lemma wf_set_col': "wf_df df \<Longrightarrow> length nv = length (index df) \<Longrightarrow> wf_df (set_col c nv df)"
  by (simp add: wf_set_col df_len_def)

lemma data_set_col_ne [simp]: "data (set_col c nv df) \<noteq> []"
  by (auto simp: set_col_def columns_def)

lemma data_select_rows_ne [simp]: "data (select_rows m df) = [] \<longleftrightarrow> data df = []"
  by (simp add: select_rows_def)

lemma index_rename_columns [simp]: "index (rename_columns rm d) = index d"
  by (simp add: rename_columns_def)

lemma index_set_const [simp]: "index (set_const c v d) = index d"
  by (simp add: set_const_def)

lemma index_fill_missing [simp]: "index (fill_missing cs d) = index d"
  by (induction cs arbitrary: d) auto

lemma index_select_cols [simp]: "index (select_cols ls d) = index d"
  by (simp add: select_cols_def)

lemma index_shipping_finalize:
  "data d \<noteq> [] \<Longrightarrow> index (shipping_finalize d cm b) = index d"
  by (auto simp: shipping_finalize_def Let_def df_empty_def pd_DataFrame_def)

lemma assign_category_index:
  "assign_category d cm sm = Inr d' \<Longrightarrow> index d' = index d \<and> (data d \<noteq> [] \<longrightarrow> data d' \<noteq> [])"
  by (auto simp: assign_category_def Let_def split: if_splits sum.splits option.splits)

lemma length_is_normal:
  "is_normal sc types malls = Inr normal \<Longrightarrow> length malls = length types \<Longrightarrow> length normal = length types"
  by (auto simp: is_normal_def split: list.splits)

lemma shipping_classify_partition:
  assumes run: "shipping_classify L sc F = Inr (m, t, s)" and wf: "wf_df F"
  shows "mset (index m) + mset (index t) + mset (index s) = mset (index F)"
proof -
  from run obtain raw where raw: "get_col F COL_MALL = Inr raw"
    by (auto simp: shipping_classify_def split: sum.splits)
  define df where "df = set_col COL_MALL (map (normalize_mall L) raw) F"
  have lraw: "length raw = length (index F)" using get_col_wf[OF wf raw] by simp
  have wfd: "wf_df df" unfolding df_def by (rule wf_set_col'[OF wf]) (simp add: lraw)
  have idf: "index df = index F" by (simp add: df_def)
  have mall: "the_col df COL_MALL = map (normalize_mall L) raw" by (simp add: df_def the_col_set_col)
  from run raw obtain types where types: "get_col df COL_TYPE = Inr types"
    by (auto simp: shipping_classify_def df_def Let_def split: sum.splits)
  have ltypes: "length types = length (index F)" using get_col_wf[OF wfd types] idf by simp
  from run raw types obtain normal where normal: "is_normal sc types (the_col df COL_MALL) = Inr normal"
    by (auto simp: shipping_classify_def df_def Let_def split: sum.splits)
  have lnormal: "length normal = length (index F)"
    using length_is_normal[OF normal] by (simp add: mall lraw ltypes)
  define cand where "cand = select_rows normal df"
  define listed where "listed = map (\<lambda>c. isin c (mall_list sc)) (the_col cand COL_MALL)"
  define df_main where "df_main = select_rows listed cand"
  define df_store where "df_store = select_rows (map Not listed) cand"
  define df_type where "df_type = select_rows (map Not normal) df"
  have wfc: "wf_df cand" unfolding cand_def by (rule wf_select_rows[OF wfd])
  have "COL_MALL \<in> set (columns cand)" by (simp add: cand_def df_def)
  then have llisted: "length listed = length (index cand)"
    using length_the_col[OF wfc] by (simp add: listed_def df_len_def)
  have ne: "data df \<noteq> []" "data cand \<noteq> []" "data df_main \<noteq> []" "data df_store \<noteq> []" "data df_type \<noteq> []"
    by (simp_all add: df_def cand_def df_main_def df_store_def df_type_def)
  from run raw types normal obtain m1 s1 where
    m1: "assign_category df_main (category_map sc) (seeding_map sc) = Inr m1" and
    s1: "assign_category df_store (category_map sc) (seeding_map sc) = Inr s1" and
    res: "m = shipping_finalize m1 (shipping_final_columns sc) False"
         "t = shipping_finalize df_type (shipping_final_columns sc) True"
         "s = shipping_finalize s1 (shipping_final_columns sc) False"
    by (auto simp: shipping_classify_def Let_def df_def[symmetric] cand_def[symmetric]
        listed_def[symmetric] df_main_def[symmetric] df_store_def[symmetric] df_type_def[symmetric]
        split: sum.splits)
  have im: "index m = select listed (index cand)"
    using assign_category_index[OF m1] ne by (simp add: res index_shipping_finalize df_main_def)
  have is': "index s = select (map Not listed) (index cand)"
    using assign_category_index[OF s1] ne by (simp add: res index_shipping_finalize df_store_def)
  have it: "index t = select (map Not normal) (index F)"
    using ne by (simp add: res index_shipping_finalize df_type_def idf)
  have ic: "index cand = select normal (index F)" by (simp add: cand_def idf)
  have a: "mset (index m) + mset (index s) = mset (index cand)"
    unfolding im is' by (rule mset_select_partition) (simp add: llisted)
  have b: "mset (index cand) + mset (index t) = mset (index F)"
    unfolding ic it by (rule mset_select_partition) (simp add: lnormal)
  have "mset (index m) + mset (index t) + mset (index s) = (mset (index m) + mset (index s)) + mset (index t)"
    by (simp add: ac_simps)
  also have "\<dots> = mset (index cand) + mset (index t)" by (simp only: a)
  also have "\<dots> = mset (index F)" by (rule b)
  finally show ?thesis .
qed


lemma wf_exclude_brands:
  "wf_df df \<Longrightarrow> exclude_brands L ex bcol df = Inr df' \<Longrightarrow> wf_df df'"
proof -
  assume wf: "wf_df df" and e: "exclude_brands L ex bcol df = Inr df'"
  then obtain vs where g: "get_col df bcol = Inr vs"
    by (auto simp: exclude_brands_def split: sum.splits)
  have "wf_df (set_col bcol (map (normalize_brand L) vs) df)"
    by (rule wf_set_col'[OF wf]) (use get_col_wf[OF wf g] in simp)
  then show ?thesis using e g by (auto simp: exclude_brands_def Let_def intro: wf_select_rows)
qed

lemma exclude_brands_index:
  "exclude_brands L ex bcol df = Inr df' \<Longrightarrow> \<exists>m. index df' = select m (index df)"
  by (auto simp: exclude_brands_def Let_def split: sum.splits)

lemma select_select_ex: "\<exists>m'. select m2 (select m1 xs) = select m' xs"
proof (induction m1 arbitrary: m2 xs)
  case Nil
  have "select m2 (select [] xs) = select [] xs" by simp
  then show ?case by blast
next
  case (Cons b m1)
  show ?case
  proof (cases xs)
    case Nil
    have "select m2 (select (b # m1) []) = select [] []" by simp
    then show ?thesis unfolding Nil by blast
  next
    case c: (Cons x xs')
    show ?thesis
    proof (cases b)
      case False
      obtain m' where "select m2 (select m1 xs') = select m' xs'" using Cons.IH by blast
      then have "select m2 (select (b # m1) xs) = select (False # m') xs" using False c by simp
      then show ?thesis by blast
    next
      case True
      show ?thesis
      proof (cases m2)
        case Nil
        have "select m2 (select (b # m1) xs) = select [] xs" using Nil by simp
        then show ?thesis by blast
      next
        case m2: (Cons b2 m2')
        obtain m' where "select m2' (select m1 xs') = select m' xs'" using Cons.IH by blast
        then have "select m2 (select (b # m1) xs) = select (b2 # m') xs" using True c m2 by simp
        then show ?thesis by blast
      qed
    qed
  qed
qed

lemma apply_filters_wf_index:
  "wf_df df \<Longrightarrow> apply_filters fs df = Inr df' \<Longrightarrow> wf_df df' \<and> (\<exists>m. index df' = select m (index df))"
proof (induction fs df rule: apply_filters.induct)
  case (1 df)
  have "index df = select (map (\<lambda>i. True) (index df)) (index df)"
    by (simp add: select_map_self)
  then show ?case using 1 by auto
next
  case (2 col val rest df)
  show ?case
  proof (cases "startswith col ''_''")
    case True
    then show ?thesis using 2 by simp
  next
    case nu: False
    let ?G = "wf_df df' \<and> (\<exists>m. index df' = select m (index df))"
    have step: "\<And>m. apply_filters rest (select_rows m df) = Inr df' \<Longrightarrow>
        (wf_df (select_rows m df) \<Longrightarrow> apply_filters rest (select_rows m df) = Inr df' \<Longrightarrow>
           wf_df df' \<and> (\<exists>m'. index df' = select m' (index (select_rows m df)))) \<Longrightarrow> ?G"
    proof -
      fix m assume r: "apply_filters rest (select_rows m df) = Inr df'"
        and ih: "wf_df (select_rows m df) \<Longrightarrow> apply_filters rest (select_rows m df) = Inr df' \<Longrightarrow>
           wf_df df' \<and> (\<exists>m'. index df' = select m' (index (select_rows m df)))"
      have "wf_df (select_rows m df)" by (rule wf_select_rows[OF "2.prems"(1)])
      then obtain m' where "wf_df df'" "index df' = select m' (select m (index df))"
        using ih r by auto
      then show ?G using select_select_ex[of m' m "index df"] by auto
    qed
    show ?thesis
    proof (cases "endswith col ''_exclude''")
      case True
      from "2.prems"(2) nu True obtain vs m where
        g: "get_col df (str_replace ''_exclude'' [] col) = Inr vs" and
        m: "ne_mask vs val = Inr m" and
        r: "apply_filters rest (select_rows m df) = Inr df'"
        by (auto split: sum.splits)
      show ?thesis by (rule step[OF r]) (rule "2.IH"(2)[OF nu True g m])
    next
      case False
      from "2.prems"(2) nu False obtain vs where g: "get_col df col = Inr vs"
        by (auto split: sum.splits)
      show ?thesis
      proof (cases val)
        case (JVal v)
        then have r: "apply_filters rest (select_rows (map (\<lambda>c. cell_eq c v) vs) df) = Inr df'"
          using "2.prems"(2) nu False g by simp
        show ?thesis by (rule step[OF r]) (rule "2.IH"(3)[OF nu False g JVal])
      next
        case (JList l)
        then have r: "apply_filters rest (select_rows (map (\<lambda>c. \<not> isin c l) vs) df) = Inr df'"
          using "2.prems"(2) nu False g by simp
        show ?thesis by (rule step[OF r]) (rule "2.IH"(4)[OF nu False g JList])
      qed
    qed
  qed
qed

lemma shipping_domain_filter_wf_index:
  assumes "wf_df df" and "shipping_domain_filter L cfg df = Inr F"
  shows "wf_df F \<and> (\<exists>m. index F = select m (index df))"
proof -
  from assms(2) obtain df1 where e: "exclude_brands L (excluded_brands cfg) COL_BRAND df = Inr df1"
    and f: "apply_filters (shipping_filters (shipping cfg)) df1 = Inr F"
    by (auto simp: shipping_domain_filter_def split: sum.splits)
  have wf1: "wf_df df1" by (rule wf_exclude_brands[OF assms(1) e])
  obtain m1 where m1: "index df1 = select m1 (index df)" using exclude_brands_index[OF e] by blast
  obtain m2 where "wf_df F" "index F = select m2 (index df1)"
    using apply_filters_wf_index[OF wf1 f] by blast
  then show ?thesis using m1 select_select_ex[of m2 m1 "index df"] by auto
qed

lemma filter_parsed_result:
  assumes wf: "wf_df df" and c: "c \<in> set (columns df)"
  shows "wf_df (snd (filter_parsed L today df c)) \<and>
         (\<exists>m. index (snd (filter_parsed L today df c)) = select m (index df)) \<and>
         (df_empty (snd (filter_parsed L today df c)) \<longrightarrow> index (snd (filter_parsed L today df c)) = [])"
proof -
  define df1 where "df1 = set_col c (map (to_datetime L) (the_col df c)) df"
  define df2 where "df2 = select_rows (map notna (the_col df1 c)) df1"
  define res where "res = select_rows (map (in_previous_month today) (the_col df2 c)) df2"
  have wf1: "wf_df df1" unfolding df1_def
    by (rule wf_set_col[OF wf]) (simp add: length_the_col[OF wf c])
  have wf2: "wf_df df2" unfolding df2_def by (rule wf_select_rows[OF wf1])
  have wfr: "wf_df res" unfolding res_def by (rule wf_select_rows[OF wf2])
  have wf0: "wf_df pd_DataFrame" by (simp add: wf_df_def pd_DataFrame_def)
  have ir: "\<exists>m. index res = select m (index df)"
    using select_select_ex by (simp add: res_def df2_def df1_def)
  have i0: "\<exists>m. index pd_DataFrame = select m (index df)"
    by (rule exI[of _ "[]"]) (simp add: pd_DataFrame_def)
  have e0: "index pd_DataFrame = []" by (simp add: pd_DataFrame_def)
  have ne: "data res \<noteq> []" by (simp add: res_def df2_def df1_def)
  have s: "snd (filter_parsed L today df c) = (if df_empty df2 then pd_DataFrame else res)"
    by (simp add: filter_parsed_def Let_def df2_def df1_def res_def)
  show ?thesis
  proof (cases "df_empty df2")
    case True
    then show ?thesis using wf0 i0 e0 unfolding s by simp
  next
    case False
    then show ?thesis using wfr ir ne unfolding s by (auto simp: df_empty_def)
  qed
qed

lemma select_butlast: "\<exists>m. butlast xs = select m xs"
proof -
  have "select (map (\<lambda>i. True) (butlast xs)) xs = butlast xs"
  proof (induction xs)
    case Nil show ?case by simp
  next
    case (Cons x xs) then show ?case by (cases xs) auto
  qed
  then show ?thesis by metis
qed

lemma filter_by_previous_month_result:
  assumes wf: "wf_df df"
  shows "wf_df (filter_by_previous_month L today df c) \<and>
         (\<exists>m. index (filter_by_previous_month L today df c) = select m (index df)) \<and>
         (df_empty (filter_by_previous_month L today df c) \<longrightarrow>
            index (filter_by_previous_month L today df c) = [])"
proof (cases "c \<notin> set (columns df) \<or> df_empty df")
  case True
  then have "filter_by_previous_month L today df c = pd_DataFrame"
    by (simp add: filter_by_previous_month_def filter_by_previous_month_st_def)
  moreover have "\<exists>m. index pd_DataFrame = select m (index df)"
    by (rule exI[of _ "[]"]) (simp add: pd_DataFrame_def)
  moreover have "index pd_DataFrame = []" "wf_df pd_DataFrame"
    by (simp_all add: pd_DataFrame_def wf_df_def)
  ultimately show ?thesis by simp
next
  case False
  then have c: "c \<in> set (columns df)" by simp
  show ?thesis
  proof (cases "df_len df > 1")
    case True
    then have e: "filter_by_previous_month L today df c = snd (filter_parsed L today (iloc_drop_last df) c)"
      using False by (simp add: filter_by_previous_month_def filter_by_previous_month_st_def)
    have r: "wf_df (snd (filter_parsed L today (iloc_drop_last df) c)) \<and>
         (\<exists>m. index (snd (filter_parsed L today (iloc_drop_last df) c)) = select m (index (iloc_drop_last df))) \<and>
         (df_empty (snd (filter_parsed L today (iloc_drop_last df) c)) \<longrightarrow>
            index (snd (filter_parsed L today (iloc_drop_last df) c)) = [])"
      by (rule filter_parsed_result[OF wf_iloc_drop_last[OF wf]]) (simp add: c)
    then obtain m where m: "index (snd (filter_parsed L today (iloc_drop_last df) c)) = select m (butlast (index df))"
      by (auto simp: iloc_drop_last_def)
    obtain m0 where "butlast (index df) = select m0 (index df)" using select_butlast by blast
    then have "\<exists>m'. index (snd (filter_parsed L today (iloc_drop_last df) c)) = select m' (index df)"
      using m select_select_ex[of m m0 "index df"] by simp
    then show ?thesis using r unfolding e by blast
  next
    case f: False
    then have e: "filter_by_previous_month L today df c = snd (filter_parsed L today df c)"
      using False by (simp add: filter_by_previous_month_def filter_by_previous_month_st_def)
    show ?thesis unfolding e by (rule filter_parsed_result[OF wf c])
  qed
qed

lemma disjoint_of_mset:
  assumes "mset a + mset b + mset c = mset xs" and "distinct xs"
  shows "set a \<inter> set b = {} \<and> set a \<inter> set c = {} \<and> set b \<inter> set c = {}"
proof -
  have "mset (a @ b @ c) = mset xs" using assms(1) by (simp add: ac_simps)
  then have "distinct (a @ b @ c)" using assms(2) by (metis mset_eq_imp_distinct_iff)
  then show ?thesis by auto
qed



subsection \<open>The three tables partition the filtered input\<close>



subsection \<open>The type-normal predicate\<close>







section \<open>The return classifier\<close>

text \<open>
  \<^verbatim>\<open>pd.to_numeric(..., errors='coerce')\<close>: a number stays, what does not parse becomes
  \<^verbatim>\<open>NaN\<close>. \<^verbatim>\<open>fillna(v)\<close> puts \<open>v\<close> where a cell is missing. \<^verbatim>\<open>abs()\<close> and the in-place
  product act on number cells.
\<close>

definition to_numeric :: "pandas \<Rightarrow> cell \<Rightarrow> cell" where
  "to_numeric L c =
     (case c of
        CNum n \<Rightarrow> CNum n
      | CNull \<Rightarrow> CNull
      | _ \<Rightarrow> (case parse_numeric L c of Some n \<Rightarrow> CNum n | None \<Rightarrow> CNull))"

definition fillna :: "cell \<Rightarrow> cell \<Rightarrow> cell" where
  "fillna v c = (if c = CNull then v else c)"

text \<open>The number a quantity cell stands for: its numeric reading, zero when it has none.\<close>

definition numeric_value :: "pandas \<Rightarrow> cell \<Rightarrow> int" where
  "numeric_value L c = (case fillna (CNum 0) (to_numeric L c) of CNum n \<Rightarrow> n | _ \<Rightarrow> 0)"

definition cell_abs :: "cell \<Rightarrow> cell" where
  "cell_abs c = (case c of CNum n \<Rightarrow> CNum \<bar>n\<bar> | _ \<Rightarrow> c)"

definition cell_times :: "int \<Rightarrow> cell \<Rightarrow> cell" where
  "cell_times k c = (case c of CNum n \<Rightarrow> CNum (n * k) | _ \<Rightarrow> c)"

text \<open>
  \<^verbatim>\<open>pd.concat([a, b], ignore_index=True)\<close>: the rows of \<open>a\<close>, then those of \<open>b\<close>, under a
  fresh index; the columns of \<open>a\<close>, then the columns only \<open>b\<close> has; a cell of a column the
  other frame lacks is missing.
\<close>

definition pd_concat :: "dataframe \<Rightarrow> dataframe \<Rightarrow> dataframe" where
  "pd_concat a b =
     \<lparr>index = [0..<df_len a + df_len b],
      data = map (\<lambda>(k, va). (k, va @ (case map_of (data b) k of
                                          Some vb \<Rightarrow> vb
                                        | None \<Rightarrow> replicate (df_len b) CNull))) (data a)
             @ map (\<lambda>(k, vb). (k, replicate (df_len a) CNull @ vb))
                 (filter (\<lambda>(k, vb). k \<notin> set (columns a)) (data b))\<rparr>"

text \<open>\<^verbatim>\<open>series.map(d)\<close> for a dictionary with text keys: no entry, no value.\<close>

definition map_dict :: "(string \<times> string) list \<Rightarrow> cell \<Rightarrow> cell" where
  "map_dict d c =
     (case c of
        CStr s \<Rightarrow> (case map_of d s of Some v \<Rightarrow> CStr v | None \<Rightarrow> CNull)
      | _ \<Rightarrow> CNull)"

text \<open>The keys of a dictionary as the values \<^verbatim>\<open>isin\<close> compares with.\<close>

definition dict_keys :: "(string \<times> string) list \<Rightarrow> cell list" where
  "dict_keys d = map (\<lambda>(k, v). CStr k) d"

text \<open>
  \<^verbatim>\<open>df.loc[df[label_col] == label, col] *= k\<close>: the cells of \<open>col\<close> in the rows whose
  \<open>label_col\<close> equals \<open>label\<close> are multiplied by \<open>k\<close>.
\<close>

definition times_where :: "string \<Rightarrow> cell \<Rightarrow> string \<Rightarrow> int \<Rightarrow> dataframe \<Rightarrow> dataframe" where
  "times_where label_col label c k df =
     set_col c (map (\<lambda>(l, q). if cell_eq l label then cell_times k q else q)
                  (zip (the_col df label_col) (the_col df c))) df"

text \<open>Lines 129 to 160 of \<^verbatim>\<open>process_return_data\<close>, on the brand-filtered rows.\<close>

definition return_classify :: "pandas \<Rightarrow> return_config \<Rightarrow> dataframe \<Rightarrow> error + dataframe" where
  "return_classify L rc df0 =
     (case get_col df0 (qty_col rc) of
        Inl e \<Rightarrow> Inl e
      | Inr qs \<Rightarrow>
          let df = set_col (qty_col rc) (map (\<lambda>c. fillna (CNum 0) (to_numeric L c)) qs) df0;
              df_return = set_const GUBUN_NEW (CStr BANPUM) df
          in (case get_col df (status_col rc) of
                Inl e \<Rightarrow> Inl e
              | Inr statuses \<Rightarrow>
                  let selected = select_rows (map (\<lambda>c. isin c (dict_keys (bad_pason_map rc))) statuses) df;
                      df_bad_pason =
                        (if \<not> df_empty selected
                         then set_col GUBUN_NEW
                                (map (map_dict (bad_pason_map rc)) (the_col selected (status_col rc)))
                                selected
                         else selected);
                      df_final = pd_concat df_return df_bad_pason;
                      df_final1 = set_const DANWI (CNum 1) (set_const JARYO_CHULCHEO (CStr SRC_RETURN) df_final);
                      df_final2 = set_col (qty_col rc)
                                    (map (\<lambda>c. cell_abs (fillna (CNum 0) (to_numeric L c)))
                                       (the_col df_final1 (qty_col rc)))
                                    df_final1;
                      df_final3 = times_where GUBUN_NEW (CStr BANPUM) (qty_col rc) (- 1) df_final2;
                      df_final4 = times_where GUBUN_NEW (CStr BULLYANG) (qty_col rc) 1 df_final3;
                      final_df = rename_columns (rename_map fixed_renames (return_final_columns rc)) df_final4
                  in Inr (select_cols (filter (\<lambda>c. c \<in> set (columns final_df)) col_order) final_df)))"

text \<open>\<^verbatim>\<open>process_return_data\<close>.\<close>

definition process_return_data :: "pandas \<Rightarrow> config \<Rightarrow> int \<times> nat \<Rightarrow> dataframe \<Rightarrow> error + dataframe" where
  "process_return_data L cfg today df0 =
     (if df_empty df0 then Inr pd_DataFrame
      else
        let df = filter_by_previous_month L today df0 (return_date_col (returns cfg))
        in if df_empty df then Inr pd_DataFrame
           else (case exclude_brands L (excluded_brands cfg) (brand_col (returns cfg)) df of
                   Inl e \<Rightarrow> Inl e
                 | Inr df1 \<Rightarrow> return_classify L (returns cfg) df1))"

text \<open>
  The rows the return classifier labels: the rows of the previous month whose brand is
  not excluded (lines 119 to 126).
\<close>

definition return_input :: "pandas \<Rightarrow> config \<Rightarrow> int \<times> nat \<Rightarrow> dataframe \<Rightarrow> error + dataframe" where
  "return_input L cfg today df0 =
     (let df = filter_by_previous_month L today df0 (return_date_col (returns cfg))
      in if df_empty df then Inr df
         else exclude_brands L (excluded_brands cfg) (brand_col (returns cfg)) df)"

text \<open>A return export for a run in June 2024: three rows of May and a summary row.\<close>

definition demo_returns :: dataframe where
  "demo_returns = \<lparr>index = [0, 1, 2, 3],
     data = [(''date'', [CDate 2024 5 6, CDate 2024 5 7, CDate 2024 5 8, CStr ''total'']),
             (''order'', [CNum 201, CNum 202, CNum 203, CNull]),
             (''brand'', [CStr ''acme'', CStr ''bolt : B'', CStr ''acme'', CNull]),
             (''status'', [CStr ''broken'', CStr ''resold'', CStr ''torn'', CNull]),
             (''qty'', [CNum 2, CNum (- 3), CStr ''n/a'', CNum 5])]\<rparr>"


subsection \<open>Columns through assignment, concatenation and renaming\<close>

lemma map_of_set_col_other:
  "k \<noteq> c \<Longrightarrow> map_of (data (set_col c nv D)) k = map_of (data D) k"
proof -
  assume kc: "k \<noteq> c"
  have "map_of (map (\<lambda>(k', old). if k' = c then (k', nv) else (k', old)) xs) k = map_of xs k" for xs
    using kc by (induction xs) auto
  then show ?thesis using kc by (auto simp: set_col_def map_add_def split: option.splits)
qed

lemma the_col_set_col_other: "k \<noteq> c \<Longrightarrow> the_col (set_col c nv D) k = the_col D k"
  by (simp add: the_col_def map_of_set_col_other)

lemma mem_set_col_other:
  "k \<noteq> c \<Longrightarrow> (k, vs) \<in> set (data (set_col c nv D)) \<longleftrightarrow> (k, vs) \<in> set (data D)"
proof -
  assume kc: "k \<noteq> c"
  have "(k, vs) \<in> set (map (\<lambda>(k', old). if k' = c then (k', nv) else (k', old)) xs)
          \<longleftrightarrow> (k, vs) \<in> set xs" for xs
    using kc by (induction xs) (auto split: if_splits)
  then show ?thesis using kc by (simp add: set_col_def)
qed

lemma mem_set_col_self: "(c, nv) \<in> set (data (set_col c nv D))"
  by (auto simp: set_col_def columns_def intro: rev_image_eqI)

lemma the_col_set_const: "the_col (set_const c v D) c = replicate (df_len D) v"
  by (simp add: set_const_def the_col_set_col)

lemma the_col_set_const_other: "k \<noteq> c \<Longrightarrow> the_col (set_const c v D) k = the_col D k"
  by (simp add: set_const_def the_col_set_col_other)

lemma mem_set_const_other:
  "k \<noteq> c \<Longrightarrow> (k, vs) \<in> set (data (set_const c v D)) \<longleftrightarrow> (k, vs) \<in> set (data D)"
  by (simp add: set_const_def mem_set_col_other)

lemma df_len_set_col [simp]: "df_len (set_col c nv D) = df_len D"
  by (simp add: df_len_def)

lemma df_len_set_const [simp]: "df_len (set_const c v D) = df_len D"
  by (simp add: df_len_def)

lemma columns_set_const [simp]:
  "columns (set_const c v D) = (if c \<in> set (columns D) then columns D else columns D @ [c])"
  by (simp add: set_const_def)

lemma the_col_pd_concat:
  "k \<in> set (columns a) \<Longrightarrow>
   the_col (pd_concat a b) k =
     the_col a k @ (case map_of (data b) k of Some vb \<Rightarrow> vb | None \<Rightarrow> replicate (df_len b) CNull)"
proof -
  assume k: "k \<in> set (columns a)"
  have *: "k \<in> fst ` set xs \<Longrightarrow>
        map_of (map (\<lambda>(k, va). (k, va @ f k)) xs @ ys) k = map_option (\<lambda>va. va @ f k) (map_of xs k)" for xs ys f
    by (induction xs) auto
  from k obtain va where "map_of (data a) k = Some va"
    by (metis columns_def domD dom_map_of_conv_image_fst list.set_map)
  then show ?thesis using k *[of "data a"] by (simp add: the_col_def pd_concat_def columns_def)
qed

lemma mem_pd_concat:
  "(k, va) \<in> set (data a) \<Longrightarrow>
   (k, va @ (case map_of (data b) k of Some vb \<Rightarrow> vb | None \<Rightarrow> replicate (df_len b) CNull))
     \<in> set (data (pd_concat a b))"
  by (force simp: pd_concat_def)

lemma df_len_pd_concat [simp]: "df_len (pd_concat a b) = df_len a + df_len b"
  by (simp add: pd_concat_def df_len_def)

lemma columns_pd_concat_left: "k \<in> set (columns a) \<Longrightarrow> k \<in> set (columns (pd_concat a b))"
  by (force simp: pd_concat_def columns_def)

lemma mem_renamed_selected:
  assumes "(k, vs) \<in> set (data D)" and "rename_label rm k \<in> set order"
  shows "(rename_label rm k, vs) \<in>
           set (data (select_cols (filter (\<lambda>c. c \<in> set (columns (rename_columns rm D))) order)
                        (rename_columns rm D)))"
proof -
  have m: "(rename_label rm k, vs) \<in> set (data (rename_columns rm D))"
    using assms(1) by (force simp: rename_columns_def)
  then have "rename_label rm k \<in> set (columns (rename_columns rm D))"
    by (force simp: columns_def)
  then show ?thesis using m assms(2) by (auto simp: select_cols_def)
qed

lemma df_len_renamed_selected [simp]:
  "df_len (select_cols ls (rename_columns rm D)) = df_len D"
  by (simp add: df_len_def select_cols_def rename_columns_def)

lemma numeric_cell: "fillna (CNum 0) (to_numeric L c) = CNum (numeric_value L c)"
  by (cases c) (auto simp: numeric_value_def fillna_def to_numeric_def split: option.splits)

lemma numeric_value_CNum [simp]: "numeric_value L (CNum n) = n"
  by (simp add: numeric_value_def fillna_def to_numeric_def)

lemma label_distinct:
  "JARYO_CHULCHEO \<noteq> GUBUN_NEW" "DANWI \<noteq> GUBUN_NEW" "GUBUN_NEW \<noteq> JARYO_CHULCHEO" "GUBUN_NEW \<noteq> DANWI"
  by (simp_all add: label_defs)

lemma length_select_filter: "length m = length xs \<Longrightarrow> length (select m xs) = length (filter id m)"
  by (induction m xs rule: list_induct2) auto

lemma mem_of_the_col:
  "k \<in> set (columns D) \<Longrightarrow> the_col D k = vs \<Longrightarrow> (k, vs) \<in> set (data D)"
proof -
  assume k: "k \<in> set (columns D)" and v: "the_col D k = vs"
  from k obtain va where m: "map_of (data D) k = Some va"
    by (metis columns_def domD dom_map_of_conv_image_fst list.set_map)
  then show ?thesis using v by (auto simp: the_col_def dest: map_of_SomeD)
qed

lemma map_of_select_rows:
  "map_of (data (select_rows m D)) k = map_option (select m) (map_of (data D) k)"
  by (simp add: select_rows_def map_of_map_values)

lemma map_of_the_col:
  "k \<in> set (columns D) \<Longrightarrow> map_of (data D) k = Some (the_col D k)"
proof -
  assume k: "k \<in> set (columns D)"
  then obtain va where m: "map_of (data D) k = Some va"
    by (metis columns_def domD dom_map_of_conv_image_fst list.set_map)
  then show ?thesis by (simp add: the_col_def)
qed

lemma map_zip_same:
  "map F (zip xs (map G (zip xs ys))) = map (\<lambda>(x, y). F (x, G (x, y))) (zip xs ys)"
proof (induction xs arbitrary: ys)
  case Nil show ?case by simp
next
  case (Cons x xs) show ?case by (cases ys) (simp_all add: Cons.IH)
qed

lemma the_col_times_where:
  "the_col (times_where lc label c k D) c =
     map (\<lambda>(l, q). if cell_eq l label then cell_times k q else q) (zip (the_col D lc) (the_col D c))"
  by (simp add: times_where_def the_col_set_col)

lemma the_col_times_where_other:
  "k' \<noteq> c \<Longrightarrow> the_col (times_where lc label c k D) k' = the_col D k'"
  by (simp add: times_where_def the_col_set_col_other)

lemma mem_times_where_other:
  "k' \<noteq> c \<Longrightarrow> (k', vs) \<in> set (data (times_where lc label c k D)) \<longleftrightarrow> (k', vs) \<in> set (data D)"
  by (simp add: times_where_def mem_set_col_other)

lemma columns_times_where:
  "k' \<in> set (columns D) \<Longrightarrow> k' \<in> set (columns (times_where lc label c k D))"
  by (simp add: times_where_def)

lemma rename_fixed_gubun_new [simp]:
  "rename_label (rename_map fixed_renames cm) GUBUN_NEW = GUBUN_NEW"
  by (simp add: rename_label_def rename_map_def fixed_renames_def)

lemma gubun_new_in_col_order [simp]: "GUBUN_NEW \<in> set col_order"
  by (simp add: col_order_def)

text \<open>
  What \<^verbatim>\<open>return_classify\<close> puts into the output, column by column: the row count, the
  new-category column, the quantity column, and every other column that is carried.
\<close>

lemma return_classify_columns:
  fixes L rc F out
  defines "rm \<equiv> rename_map fixed_renames (return_final_columns rc)"
    and "st \<equiv> the_col F (status_col rc)"
  defines "mapped \<equiv> map (\<lambda>c. isin c (dict_keys (bad_pason_map rc))) st"
  defines "labels \<equiv> replicate (df_len F) (CStr BANPUM) @ map (map_dict (bad_pason_map rc)) (select mapped st)"
    and "srcq \<equiv> the_col F (qty_col rc) @ select mapped (the_col F (qty_col rc))"
  assumes run: "return_classify L rc F = Inr out" and wf: "wf_df F"
    and sq: "status_col rc \<noteq> qty_col rc" and qg: "qty_col rc \<noteq> GUBUN_NEW"
  shows "df_len out = df_len F + length (filter id mapped)"
    and "(GUBUN_NEW, labels) \<in> set (data out)"
    and "qty_col rc \<noteq> JARYO_CHULCHEO \<Longrightarrow> qty_col rc \<noteq> DANWI \<Longrightarrow>
         rename_label rm (qty_col rc) \<in> set col_order \<Longrightarrow>
         (rename_label rm (qty_col rc),
          map (\<lambda>(l, c). CNum (if l = CStr BANPUM then - \<bar>numeric_value L c\<bar> else \<bar>numeric_value L c\<bar>))
            (zip labels srcq)) \<in> set (data out)"
    and "distinct (columns F) \<Longrightarrow> (k, vs) \<in> set (data F) \<Longrightarrow>
         k \<notin> {qty_col rc, GUBUN_NEW, JARYO_CHULCHEO, DANWI} \<Longrightarrow> rename_label rm k \<in> set col_order \<Longrightarrow>
         (rename_label rm k, vs @ select mapped vs) \<in> set (data out)"
proof -
  let ?q = "qty_col rc" and ?s = "status_col rc"
  let ?num = "\<lambda>c. fillna (CNum 0) (to_numeric L c)"
  from run obtain qs where qs: "get_col F ?q = Inr qs"
    by (auto simp: return_classify_def split: sum.splits)
  have qF: "?q \<in> set (columns F)" "the_col F ?q = qs" "length qs = length (index F)"
    using get_col_wf[OF wf qs] by simp_all
  define df where "df = set_col ?q (map ?num qs) F"
  define ret where "ret = set_const GUBUN_NEW (CStr BANPUM) df"
  from run qs obtain statuses where sts: "get_col df ?s = Inr statuses"
    by (auto simp: return_classify_def Let_def df_def split: sum.splits)
  have wfd: "wf_df df" unfolding df_def by (rule wf_set_col'[OF wf]) (simp add: qF)
  have sD: "?s \<in> set (columns df)" "the_col df ?s = statuses" "length statuses = length (index df)"
    using get_col_wf[OF wfd sts] by simp_all
  have st_eq: "statuses = st"
    using sD(2) sq by (simp add: df_def the_col_set_col_other st_def)
  have lmapped: "length mapped = length (index F)"
    using sD(3) st_eq by (simp add: mapped_def df_def)
  define sel where "sel = select_rows mapped df"
  define bad where "bad = (if \<not> df_empty sel
       then set_col GUBUN_NEW (map (map_dict (bad_pason_map rc)) (the_col sel ?s)) sel else sel)"
  define D0 where "D0 = pd_concat ret bad"
  define D1 where "D1 = set_const DANWI (CNum 1) (set_const JARYO_CHULCHEO (CStr SRC_RETURN) D0)"
  define D2 where "D2 = set_col ?q (map (\<lambda>c. cell_abs (?num c)) (the_col D1 ?q)) D1"
  define D3 where "D3 = times_where GUBUN_NEW (CStr BANPUM) ?q (- 1) D2"
  define D4 where "D4 = times_where GUBUN_NEW (CStr BULLYANG) ?q 1 D3"
  have out: "out = select_cols (filter (\<lambda>c. c \<in> set (columns (rename_columns rm D4))) col_order)
                     (rename_columns rm D4)"
    using run qs sts
    by (simp add: return_classify_def Let_def df_def[symmetric] ret_def[symmetric] st_eq
        mapped_def[symmetric] sel_def[symmetric] bad_def[symmetric] D0_def[symmetric]
        D1_def[symmetric] D2_def[symmetric] D3_def[symmetric] D4_def[symmetric] rm_def[symmetric])
  \<comment> \<open>row counts\<close>
  have wfs: "wf_df sel" unfolding sel_def by (rule wf_select_rows[OF wfd])
  have lsel: "df_len sel = length (filter id mapped)"
    using length_select_filter[OF lmapped] by (simp add: sel_def df_len_def df_def)
  have lbad: "df_len bad = length (filter id mapped)"
    using lsel by (simp add: bad_def)
  have lret: "df_len ret = df_len F" by (simp add: ret_def df_def)
  have lD4: "df_len D4 = df_len F + length (filter id mapped)"
    by (simp add: D4_def D3_def D2_def D1_def D0_def times_where_def lret lbad)
  show "df_len out = df_len F + length (filter id mapped)"
    by (simp add: out lD4)
  \<comment> \<open>what the second frame appends to a column\<close>
  have sel_col: "\<And>k. k \<in> set (columns df) \<Longrightarrow> map_of (data sel) k = Some (select mapped (the_col df k))"
    by (simp add: sel_def map_of_select_rows map_of_the_col)
  have sel_status: "the_col sel ?s = select mapped st"
    using sD st_eq by (simp add: sel_def the_col_select_rows)
  have len_sel_cols: "\<And>vs :: cell list. length vs = length (index F) \<Longrightarrow> df_empty sel \<Longrightarrow> select mapped vs = []"
  proof -
    fix vs :: "cell list" assume l: "length vs = length (index F)" and e: "df_empty sel"
    have "data sel \<noteq> []" using sD(1) by (auto simp: sel_def columns_def)
    then have "df_len sel = 0" using e by (simp add: df_empty_def df_len_def)
    then have "length (filter id mapped) = 0" using lsel by simp
    moreover have "length (select mapped vs) = length (filter id mapped)"
      by (rule length_select_filter) (simp add: lmapped l)
    ultimately show "select mapped vs = []" by simp
  qed
  have lst: "length st = length (index F)" using sD(3) st_eq by (simp add: df_def)
  have tail_label: "(case map_of (data bad) GUBUN_NEW of Some vb \<Rightarrow> vb | None \<Rightarrow> replicate (df_len bad) CNull)
        = map (map_dict (bad_pason_map rc)) (select mapped st)"
  proof (cases "df_empty sel")
    case False
    then have "map_of (data bad) GUBUN_NEW = Some (map (map_dict (bad_pason_map rc)) (select mapped st))"
      using map_of_the_col[of GUBUN_NEW "set_col GUBUN_NEW (map (map_dict (bad_pason_map rc)) (select mapped st)) sel"]
      by (simp add: bad_def sel_status the_col_set_col)
    then show ?thesis by simp
  next
    case True
    have e: "select mapped st = []" by (rule len_sel_cols[OF lst True])
    have "df_len bad = 0" using lbad length_select_filter[of mapped st] lmapped lst e by simp
    moreover have "\<And>vb. map_of (data bad) GUBUN_NEW = Some vb \<Longrightarrow> vb = []"
    proof -
      fix vb assume "map_of (data bad) GUBUN_NEW = Some vb"
      then have "(GUBUN_NEW, vb) \<in> set (data sel)" using True by (auto simp: bad_def dest: map_of_SomeD)
      then have "length vb = length (index sel)" using wfs by (auto simp: wf_df_def)
      then show "vb = []" using \<open>df_len bad = 0\<close> True by (simp add: bad_def df_len_def)
    qed
    ultimately show ?thesis using e by (auto split: option.splits)
  qed
  have tail_other: "\<And>k. k \<in> set (columns df) \<Longrightarrow> k \<noteq> GUBUN_NEW \<Longrightarrow>
      (case map_of (data bad) k of Some vb \<Rightarrow> vb | None \<Rightarrow> replicate (df_len bad) CNull)
        = select mapped (the_col df k)"
    using sel_col by (simp add: bad_def map_of_set_col_other)
  \<comment> \<open>the label column\<close>
  have g0: "the_col D0 GUBUN_NEW = labels"
    unfolding D0_def
    by (subst the_col_pd_concat) (simp_all add: ret_def the_col_set_const tail_label labels_def df_def)
  have gcol: "GUBUN_NEW \<in> set (columns D4)"
    unfolding D4_def D3_def D2_def D1_def D0_def
    by (intro columns_times_where) (simp add: columns_pd_concat_left ret_def)
  have g4: "the_col D4 GUBUN_NEW = labels"
    using qg g0 label_distinct
    by (simp add: D4_def D3_def D2_def D1_def the_col_times_where_other the_col_set_col_other
        the_col_set_const_other)
  have "(GUBUN_NEW, labels) \<in> set (data D4)" by (rule mem_of_the_col[OF gcol g4])
  then have "(rename_label rm GUBUN_NEW, labels) \<in> set (data out)"
    unfolding out by (rule mem_renamed_selected) (simp add: rm_def)
  then show "(GUBUN_NEW, labels) \<in> set (data out)" by (simp add: rm_def)
  \<comment> \<open>the quantity column\<close>
  have qdf: "the_col df ?q = map ?num qs" by (simp add: df_def the_col_set_col)
  have qcdf: "?q \<in> set (columns df)" using qF(1) by (simp add: df_def)
  have q0: "the_col D0 ?q = map ?num srcq"
    unfolding D0_def
    by (subst the_col_pd_concat)
       (use qg qcdf in \<open>simp_all add: ret_def the_col_set_const_other tail_other qdf srcq_def qF(2) select_map\<close>)
  show "(rename_label rm ?q,
          map (\<lambda>(l, c). CNum (if l = CStr BANPUM then - \<bar>numeric_value L c\<bar> else \<bar>numeric_value L c\<bar>))
            (zip labels srcq)) \<in> set (data out)"
    if qj: "?q \<noteq> JARYO_CHULCHEO" and qd: "?q \<noteq> DANWI" and ro: "rename_label rm ?q \<in> set col_order"
  proof -
    have q1: "the_col D1 ?q = map ?num srcq"
      using qj qd q0 by (simp add: D1_def the_col_set_const_other)
    have q2: "the_col D2 ?q = map (\<lambda>c. CNum \<bar>numeric_value L c\<bar>) srcq"
      by (simp add: D2_def the_col_set_col q1 numeric_cell cell_abs_def)
    have g2: "the_col D2 GUBUN_NEW = labels"
      using qg g0 label_distinct by (simp add: D2_def D1_def the_col_set_col_other the_col_set_const_other)
    have g3: "the_col D3 GUBUN_NEW = labels"
      using qg g2 by (simp add: D3_def the_col_times_where_other)
    have q3: "the_col D3 ?q = map (\<lambda>(l, c). CNum (if l = CStr BANPUM then - \<bar>numeric_value L c\<bar> else \<bar>numeric_value L c\<bar>))
            (zip labels srcq)"
      by (simp add: D3_def the_col_times_where g2 q2 zip_map2 case_prod_unfold cell_eq_def cell_times_def)
    have q4: "the_col D4 ?q = map (\<lambda>(l, c). CNum (if l = CStr BANPUM then - \<bar>numeric_value L c\<bar> else \<bar>numeric_value L c\<bar>))
            (zip labels srcq)"
      unfolding D4_def the_col_times_where g3 q3 map_zip_same
      by (simp add: case_prod_unfold cell_times_def)
    have qc: "?q \<in> set (columns D4)"
      unfolding D4_def D3_def D2_def D1_def D0_def
      by (intro columns_times_where) (use qcdf in \<open>simp add: columns_pd_concat_left ret_def\<close>)
    show ?thesis unfolding out
      by (rule mem_renamed_selected[OF mem_of_the_col[OF qc q4] ro])
  qed
  \<comment> \<open>every other column\<close>
  show "(rename_label rm k, vs @ select mapped vs) \<in> set (data out)"
    if dc: "distinct (columns F)" and kv: "(k, vs) \<in> set (data F)"
      and kn: "k \<notin> {?q, GUBUN_NEW, JARYO_CHULCHEO, DANWI}" and ro: "rename_label rm k \<in> set col_order"
  proof -
    have "distinct (map fst (data F))" using dc by (simp add: columns_def)
    then have "map_of (data F) k = Some vs" using kv by simp
    then have cF: "the_col F k = vs" by (simp add: the_col_def)
    have kF: "k \<in> set (columns F)" using kv by (force simp: columns_def)
    have kdf: "(k, vs) \<in> set (data df)" "the_col df k = vs" "k \<in> set (columns df)"
      using kv kn cF kF by (simp_all add: df_def mem_set_col_other the_col_set_col_other)
    have "(k, vs) \<in> set (data ret)" using kdf(1) kn by (simp add: ret_def mem_set_const_other)
    then have "(k, vs @ select mapped vs) \<in> set (data D0)"
      using mem_pd_concat[of k vs ret bad] tail_other[OF kdf(3)] kn kdf(2) by (simp add: D0_def)
    then have "(k, vs @ select mapped vs) \<in> set (data D4)"
      using kn by (simp add: D4_def D3_def D2_def D1_def mem_times_where_other mem_set_col_other mem_set_const_other)
    then show ?thesis unfolding out using ro by (rule mem_renamed_selected)
  qed
qed

lemma columns_filter_parsed:
  "c \<in> set (columns df) \<Longrightarrow> \<not> df_empty (snd (filter_parsed L today df c)) \<Longrightarrow>
   columns (snd (filter_parsed L today df c)) = columns df"
  by (auto simp: filter_parsed_def Let_def df_empty_def pd_DataFrame_def split: if_splits)

lemma columns_filter_by_previous_month:
  "\<not> df_empty (filter_by_previous_month L today df c) \<Longrightarrow>
   columns (filter_by_previous_month L today df c) = columns df"
proof -
  assume ne: "\<not> df_empty (filter_by_previous_month L today df c)"
  have e: "df_empty pd_DataFrame" by (simp add: df_empty_def pd_DataFrame_def)
  show ?thesis
  proof (cases "c \<notin> set (columns df) \<or> df_empty df")
    case True
    then show ?thesis using ne e
      by (simp add: filter_by_previous_month_def filter_by_previous_month_st_def)
  next
    case False
    then show ?thesis using ne columns_filter_parsed[of c df L today]
        columns_filter_parsed[of c "iloc_drop_last df" L today]
      by (auto simp: filter_by_previous_month_def filter_by_previous_month_st_def split: if_splits)
  qed
qed

lemma columns_exclude_brands:
  "exclude_brands L ex bcol df = Inr df' \<Longrightarrow> columns df' = columns df"
proof -
  assume e: "exclude_brands L ex bcol df = Inr df'"
  then obtain vs where g: "get_col df bcol = Inr vs" by (auto simp: exclude_brands_def split: sum.splits)
  then have "map_of (data df) bcol = Some vs" by (auto simp: get_col_def split: option.splits)
  then have "bcol \<in> set (columns df)" by (force simp: columns_def dest: map_of_SomeD)
  then show ?thesis using e g by (auto simp: exclude_brands_def Let_def)
qed

lemma process_return_data_via_input:
  assumes run: "process_return_data L cfg today df = Inr out" and wf: "wf_df df"
    and ne: "\<not> df_empty (filter_by_previous_month L today df (return_date_col (returns cfg)))"
  shows "\<exists>F. return_input L cfg today df = Inr F \<and> return_classify L (returns cfg) F = Inr out \<and>
             wf_df F \<and> columns F = columns df"
proof -
  define pm where "pm = filter_by_previous_month L today df (return_date_col (returns cfg))"
  have nd: "\<not> df_empty df"
  proof
    assume "df_empty df"
    then have "pm = pd_DataFrame"
      by (simp add: pm_def filter_by_previous_month_def filter_by_previous_month_st_def)
    then show False using ne by (simp add: pm_def[symmetric] df_empty_def pd_DataFrame_def)
  qed
  from run nd ne obtain F where F: "exclude_brands L (excluded_brands cfg) (brand_col (returns cfg)) pm = Inr F"
    and c: "return_classify L (returns cfg) F = Inr out"
    by (auto simp: process_return_data_def Let_def pm_def[symmetric] split: sum.splits)
  have wpm: "wf_df pm" using filter_by_previous_month_result[OF wf] by (simp add: pm_def)
  have "wf_df F" by (rule wf_exclude_brands[OF wpm F])
  moreover have "columns F = columns df"
    using columns_exclude_brands[OF F] columns_filter_by_previous_month[OF ne] by (simp add: pm_def)
  moreover have "return_input L cfg today df = Inr F"
    using ne F by (simp add: return_input_def Let_def pm_def[symmetric])
  ultimately show ?thesis using c by blast
qed

lemma suryang_facts:
  "SURYANG \<in> set col_order" "GUBUN_NEW \<noteq> SURYANG" "JARYO_CHULCHEO \<noteq> SURYANG" "DANWI_EA \<noteq> SURYANG"
  by (simp_all add: col_order_def label_defs)

lemma rename_fixed: 
  "rename_label (rename_map fixed_renames cm) JARYO_CHULCHEO = JARYO_CHULCHEO"
  "rename_label (rename_map fixed_renames cm) DANWI = DANWI_EA"
  by (simp_all add: rename_label_def rename_map_def fixed_renames_def label_defs)

text \<open>Without rows in the previous month the classifier returns the empty frame.\<close>

lemma process_return_data_no_rows:
  "df_empty (filter_by_previous_month L today df (return_date_col (returns cfg))) \<Longrightarrow>
   process_return_data L cfg today df = Inr pd_DataFrame"
  by (simp add: process_return_data_def Let_def)


subsection \<open>Duplication of the rows with a mapped status\<close>

text \<open>
  Claim C2. Let the input rows be the rows of the previous month whose brand is not
  excluded, and call a row mapped when its status is a key of the status-to-category
  map. Whenever \<^verbatim>\<open>process_return_data\<close> returns for a well-formed table with distinct
  column names and rows in the previous month, the output has one row for every input
  row that is not mapped and two for every mapped row: first every input row, labelled
  with the return label, then a copy of every mapped row, in order, labelled with the
  category its status maps to; every carried column of a copy holds the cells of the
  row it copies. The configuration is taken to name different columns for status and
  quantity, and a quantity column other than the new-category column.
\<close>

theorem process_return_data_duplicates_mapped_rows:
  assumes run: "process_return_data L cfg today df = Inr out"
    and wf: "wf_df df" and dc: "distinct (columns df)"
    and ne: "\<not> df_empty (filter_by_previous_month L today df (return_date_col (returns cfg)))"
    and sq: "status_col (returns cfg) \<noteq> qty_col (returns cfg)"
    and qg: "qty_col (returns cfg) \<noteq> GUBUN_NEW"
  shows "\<exists>F. return_input L cfg today df = Inr F \<and>
     (let st = the_col F (status_col (returns cfg));
          mapped = map (\<lambda>c. isin c (dict_keys (bad_pason_map (returns cfg)))) st;
          rm = rename_map fixed_renames (return_final_columns (returns cfg))
      in length mapped = df_len F \<and>
         df_len out = length (filter Not mapped) + 2 * length (filter id mapped) \<and>
         (GUBUN_NEW, replicate (df_len F) (CStr BANPUM)
                       @ map (map_dict (bad_pason_map (returns cfg))) (select mapped st)) \<in> set (data out) \<and>
         (\<forall>(k, vs) \<in> set (data F).
            k \<notin> {qty_col (returns cfg), GUBUN_NEW, JARYO_CHULCHEO, DANWI} \<and> rename_label rm k \<in> set col_order
            \<longrightarrow> (rename_label rm k, vs @ select mapped vs) \<in> set (data out)))"
proof -
  obtain F where F: "return_input L cfg today df = Inr F"
    and c: "return_classify L (returns cfg) F = Inr out" and wfF: "wf_df F" and cols: "columns F = columns df"
    using process_return_data_via_input[OF run wf ne] by blast
  define st where "st = the_col F (status_col (returns cfg))"
  define mapped where "mapped = map (\<lambda>c. isin c (dict_keys (bad_pason_map (returns cfg)))) st"
  from c obtain qs where "get_col F (qty_col (returns cfg)) = Inr qs"
    by (auto simp: return_classify_def split: sum.splits)
  with c obtain ss where "get_col (set_col (qty_col (returns cfg)) (map (\<lambda>c. fillna (CNum 0) (to_numeric L c)) qs) F) (status_col (returns cfg)) = Inr ss"
    by (auto simp: return_classify_def Let_def split: sum.splits)
  then have "map_of (data F) (status_col (returns cfg)) \<noteq> None"
    using sq by (auto simp: get_col_def map_of_set_col_other split: option.splits)
  then have "status_col (returns cfg) \<in> set (columns F)"
    by (force simp: columns_def dest: map_of_SomeD)
  then have lm: "length mapped = df_len F"
    using length_the_col[OF wfF] by (simp add: mapped_def st_def)
  have "length (filter Not mapped) + length (filter id mapped) = length mapped"
    using sum_length_filter_compl[of id mapped] by (simp add: o_def add.commute)
  then have cnt: "df_len F + length (filter id mapped) = length (filter Not mapped) + 2 * length (filter id mapped)"
    using lm by simp
  have dF: "distinct (columns F)" using dc cols by simp
  note r = return_classify_columns[OF c wfF sq qg, folded st_def, folded mapped_def]
  have every: "\<forall>(k, vs) \<in> set (data F).
            k \<notin> {qty_col (returns cfg), GUBUN_NEW, JARYO_CHULCHEO, DANWI} \<and>
            rename_label (rename_map fixed_renames (return_final_columns (returns cfg))) k \<in> set col_order
            \<longrightarrow> (rename_label (rename_map fixed_renames (return_final_columns (returns cfg))) k,
                 vs @ select mapped vs) \<in> set (data out)"
    using r(4)[OF dF] by blast
  have len: "df_len out = length (filter Not mapped) + 2 * length (filter id mapped)"
    using r(1) cnt by simp
  have "length mapped = df_len F \<and>
         df_len out = length (filter Not mapped) + 2 * length (filter id mapped) \<and>
         (GUBUN_NEW, replicate (df_len F) (CStr BANPUM)
                       @ map (map_dict (bad_pason_map (returns cfg))) (select mapped st)) \<in> set (data out) \<and>
         (\<forall>(k, vs) \<in> set (data F).
            k \<notin> {qty_col (returns cfg), GUBUN_NEW, JARYO_CHULCHEO, DANWI} \<and>
            rename_label (rename_map fixed_renames (return_final_columns (returns cfg))) k \<in> set col_order
            \<longrightarrow> (rename_label (rename_map fixed_renames (return_final_columns (returns cfg))) k,
                 vs @ select mapped vs) \<in> set (data out))"
    using lm len r(2) every by blast
  then show ?thesis using F unfolding Let_def st_def mapped_def by blast
qed

theorem process_return_data_duplicates_mapped_rows_witness:
 "wf_df demo_returns \<and> distinct (columns demo_returns) \<and>
  \<not> df_empty (filter_by_previous_month strict_pandas (2024, 6) demo_returns
                 (return_date_col (returns demo_config))) \<and>
  status_col (returns demo_config) \<noteq> qty_col (returns demo_config) \<and>
  qty_col (returns demo_config) \<noteq> GUBUN_NEW \<and>
  (\<exists>out. process_return_data strict_pandas demo_config (2024, 6) demo_returns = Inr out \<and>
     df_len out = 5 \<and>
     (GUBUN_NEW, [CStr BANPUM, CStr BANPUM, CStr BANPUM, CStr BULLYANG, CStr ''damaged'']) \<in> set (data out) \<and>
     (JUMUN_BEONHO, [CNum 201, CNum 202, CNum 203, CNum 201, CNum 203]) \<in> set (data out))"
proof -
  let ?rc = "returns demo_config"
  have wf: "wf_df demo_returns" by (simp add: wf_df_def demo_returns_def)
  have dc: "distinct (columns demo_returns)" by (simp add: columns_def demo_returns_def)
  have ne: "\<not> df_empty (filter_by_previous_month strict_pandas (2024, 6) demo_returns (return_date_col ?rc))"
    by code_simp
  have sq: "status_col ?rc \<noteq> qty_col ?rc" by (simp add: demo_config_def)
  have qg: "qty_col ?rc \<noteq> GUBUN_NEW" by (simp add: demo_config_def GUBUN_NEW_def)
  have "case process_return_data strict_pandas demo_config (2024, 6) demo_returns of
          Inr out \<Rightarrow> True | Inl e \<Rightarrow> False"
    by code_simp
  then obtain out where run: "process_return_data strict_pandas demo_config (2024, 6) demo_returns = Inr out"
    by (auto split: sum.splits)
  obtain F where F: "return_input strict_pandas demo_config (2024, 6) demo_returns = Inr F"
    and r: "let st = the_col F (status_col ?rc);
          mapped = map (\<lambda>c. isin c (dict_keys (bad_pason_map ?rc))) st;
          rm = rename_map fixed_renames (return_final_columns ?rc)
      in length mapped = df_len F \<and>
         df_len out = length (filter Not mapped) + 2 * length (filter id mapped) \<and>
         (GUBUN_NEW, replicate (df_len F) (CStr BANPUM)
                       @ map (map_dict (bad_pason_map ?rc)) (select mapped st)) \<in> set (data out) \<and>
         (\<forall>(k, vs) \<in> set (data F).
            k \<notin> {qty_col ?rc, GUBUN_NEW, JARYO_CHULCHEO, DANWI} \<and> rename_label rm k \<in> set col_order
            \<longrightarrow> (rename_label rm k, vs @ select mapped vs) \<in> set (data out))"
    using process_return_data_duplicates_mapped_rows[OF run wf dc ne sq qg] by blast
  have "(case return_input strict_pandas demo_config (2024, 6) demo_returns of
           Inr G \<Rightarrow> (the_col G ''status'', df_len G, the_col G ''order'', ''order'' \<in> set (columns G))
         | Inl e \<Rightarrow> ([], 0, [], False))
        = ([CStr ''broken'', CStr ''resold'', CStr ''torn''], 3, [CNum 201, CNum 202, CNum 203], True)"
    by code_simp
  then have Fv: "the_col F ''status'' = [CStr ''broken'', CStr ''resold'', CStr ''torn'']" "df_len F = 3"
      "the_col F ''order'' = [CNum 201, CNum 202, CNum 203]" "''order'' \<in> set (columns F)"
    using F by simp_all
  have ord: "(''order'', [CNum 201, CNum 202, CNum 203]) \<in> set (data F)"
    by (rule mem_of_the_col[OF Fv(4) Fv(3)])
  have cfgv: "status_col ?rc = ''status''" "qty_col ?rc = ''qty''"
    "bad_pason_map ?rc = [(''broken'', BULLYANG), (''torn'', ''damaged'')]"
    "return_final_columns ?rc = [(ILJA, ''date''), (JUMUN_BEONHO, ''order''), (SURYANG, ''qty'')]"
    by (simp_all add: demo_config_def)
  have mp: "map (\<lambda>c. isin c (dict_keys (bad_pason_map ?rc))) [CStr ''broken'', CStr ''resold'', CStr ''torn'']
              = [True, False, True]"
    by (simp add: cfgv isin_def dict_keys_def)
  have rl: "rename_label (rename_map fixed_renames (return_final_columns ?rc)) ''order'' = JUMUN_BEONHO"
    by (simp add: cfgv rename_label_def rename_map_def fixed_renames_def label_defs)
  have no: "''order'' \<notin> {qty_col ?rc, GUBUN_NEW, JARYO_CHULCHEO, DANWI}"
    by (simp add: cfgv label_defs)
  have jo: "JUMUN_BEONHO \<in> set col_order" by (simp add: col_order_def)
  note r' = r[unfolded Let_def cfgv(1) Fv(1,2) mp]
  have rep3: "replicate 3 (CStr BANPUM) = [CStr BANPUM, CStr BANPUM, CStr BANPUM]"
    by (simp add: numeral_3_eq_3)
  have a: "df_len out = 5" using r' by simp
  have b: "(GUBUN_NEW, [CStr BANPUM, CStr BANPUM, CStr BANPUM, CStr BULLYANG, CStr ''damaged'']) \<in> set (data out)"
    using r' by (simp add: map_dict_def cfgv(3) rep3)
  have c: "(JUMUN_BEONHO, [CNum 201, CNum 202, CNum 203, CNum 201, CNum 203]) \<in> set (data out)"
  proof -
    note every = r'[THEN conjunct2, THEN conjunct2, THEN conjunct2]
    have "''order'' \<notin> {qty_col ?rc, GUBUN_NEW, JARYO_CHULCHEO, DANWI} \<and>
          rename_label (rename_map fixed_renames (return_final_columns ?rc)) ''order'' \<in> set col_order
          \<longrightarrow> (rename_label (rename_map fixed_renames (return_final_columns ?rc)) ''order'',
                 [CNum 201, CNum 202, CNum 203] @ select [True, False, True] [CNum 201, CNum 202, CNum 203])
                 \<in> set (data out)"
      using bspec[OF every ord] by simp
    then have "(rename_label (rename_map fixed_renames (return_final_columns ?rc)) ''order'',
                 [CNum 201, CNum 202, CNum 203] @ select [True, False, True] [CNum 201, CNum 202, CNum 203])
                 \<in> set (data out)"
      using no jo by (simp only: rl simp_thms)
    then show ?thesis by (simp add: rl)
  qed
  show ?thesis using wf dc ne sq qg run a b c by (intro conjI exI[of _ out])
qed

subsection \<open>The sign of the quantity\<close>




section \<open>The receiving classifier\<close>

text \<open>
  The loop of lines 176 to 181 over \<^verbatim>\<open>config['peculiar_filters'].items()\<close>. The scalar
  branch is reached with a value that is no list.
\<close>

fun apply_peculiar_filters :: "(string \<times> json_val) list \<Rightarrow> dataframe \<Rightarrow> error + dataframe" where
  "apply_peculiar_filters [] df = Inr df"
| "apply_peculiar_filters ((col, val) # rest) df =
     (if startswith col ''_'' then apply_peculiar_filters rest df
      else
        (case get_col df col of
           Inl e \<Rightarrow> Inl e
         | Inr vs \<Rightarrow>
             (case val of
                JList l \<Rightarrow> apply_peculiar_filters rest (select_rows (map (\<lambda>c. \<not> isin c l) vs) df)
              | JVal v \<Rightarrow> apply_peculiar_filters rest (select_rows (map (\<lambda>c. \<not> cell_eq c v) vs) df))))"

text \<open>
  \<^verbatim>\<open>.str.split(' : ').str[1]\<close>: the second segment of a text cell, missing when the
  text has a single segment or the cell is not text.
\<close>

definition second_segment :: "cell \<Rightarrow> cell" where
  "second_segment c =
     (case c of
        CStr s \<Rightarrow> (case str_split '' : '' s of a # b # rest \<Rightarrow> CStr b | _ \<Rightarrow> CNull)
      | _ \<Rightarrow> CNull)"

definition final_cols :: "string list" where
  "final_cols = [ILJA, JUMUN_BEONHO, GUBUN_NEW, GUBUN, SANGPUM_CODE, PUMMOKMYEONG, DANWI_EA,
                 SURYANG, JARYO_CHULCHEO, SANGTAE, SANGPUM_BIGO, BRAND]"

text \<open>
  \<^verbatim>\<open>finalize\<close> of the receiving classifier, lines 183 to 223. The call of \<^verbatim>\<open>drop\<close> on
  line 213 returns a new frame that the code does not keep, so it changes nothing.
\<close>

definition receiving_finalize ::
  "pandas \<Rightarrow> receiving_config \<Rightarrow> dataframe \<Rightarrow> (string \<times> string) list \<Rightarrow> bool \<Rightarrow> error + dataframe" where
  "receiving_finalize L vc d cols_map is_free =
     (if df_empty d then Inr pd_DataFrame
      else
        let d1 = set_const DANWI (CNum 1) (set_const JARYO_CHULCHEO (CStr SRC_RECEIVING) d)
        in (case get_col d1 (receiving_qty_col vc) of
              Inl e \<Rightarrow> Inl e
            | Inr qs \<Rightarrow>
                let orig_qty = map (\<lambda>c. fillna (CNum 0) (to_numeric L c)) qs;
                    final_df = rename_columns
                                 (rename_map []
                                    (filter (\<lambda>(k, v). v \<notin> set [receiving_qty_col vc, DANWI]) cols_map))
                                 d1
                in (case (if is_free
                          then (case get_col (set_col SURYANG orig_qty final_df) GUBUN of
                                  Inl e \<Rightarrow> Inl e
                                | Inr gubun \<Rightarrow>
                                    Inr (set_col GUBUN_NEW (map second_segment gubun)
                                           (set_col SURYANG orig_qty final_df)))
                          else Inr (set_const GUBUN_NEW (CStr BANPUM)
                                      (set_col SURYANG (map (\<lambda>q. cell_times (- 1) (cell_abs q)) orig_qty)
                                         final_df))) of
                      Inl e \<Rightarrow> Inl e
                    | Inr final_df1 \<Rightarrow>
                        Inr (select_cols final_cols
                               (fill_missing final_cols (set_const DANWI_EA (CNum 1) final_df1))))))"

text \<open>Lines 173 to 181: the free bucket and the filtered peculiar bucket.\<close>

definition receiving_buckets :: "receiving_config \<Rightarrow> dataframe \<Rightarrow> error + (dataframe \<times> dataframe)" where
  "receiving_buckets vc df =
     (case get_col df (type_col vc) of
        Inl e \<Rightarrow> Inl e
      | Inr types \<Rightarrow>
          let df_free = select_rows (map (\<lambda>c. isin c (free_types vc)) types) df;
              df_peculiar = select_rows (map (\<lambda>c. \<not> isin c (free_types vc)) types) df
          in (case apply_peculiar_filters (peculiar_filters vc) df_peculiar of
                Inl e \<Rightarrow> Inl e
              | Inr df_peculiar1 \<Rightarrow> Inr (df_peculiar1, df_free)))"

text \<open>\<^verbatim>\<open>process_receiving_data\<close>: the pair is (peculiar table, free table).\<close>

definition process_receiving_data ::
  "pandas \<Rightarrow> config \<Rightarrow> int \<times> nat \<Rightarrow> dataframe \<Rightarrow> error + (dataframe \<times> dataframe)" where
  "process_receiving_data L cfg today df0 =
     (if df_empty df0 then Inr (pd_DataFrame, pd_DataFrame)
      else
        let df = filter_by_previous_month L today df0 (receiving_date_col (receiving cfg))
        in if df_empty df then Inr (pd_DataFrame, pd_DataFrame)
           else (case exclude_brands L (excluded_brands cfg) COL_BRAND df of
                   Inl e \<Rightarrow> Inl e
                 | Inr df1 \<Rightarrow>
                     (case receiving_buckets (receiving cfg) df1 of
                        Inl e \<Rightarrow> Inl e
                      | Inr (df_peculiar, df_free) \<Rightarrow>
                          (case receiving_finalize L (receiving cfg) df_peculiar
                                  (final_columns_peculiar (receiving cfg)) False of
                             Inl e \<Rightarrow> Inl e
                           | Inr peculiar \<Rightarrow>
                               (case receiving_finalize L (receiving cfg) df_free
                                       (final_columns_free (receiving cfg)) True of
                                  Inl e \<Rightarrow> Inl e
                                | Inr free \<Rightarrow> Inr (peculiar, free))))))"

text \<open>
  The two buckets as they reach \<^verbatim>\<open>finalize\<close> (lines 167 to 181), for a table that has
  rows in the previous month: the pair is (peculiar bucket, free bucket).
\<close>

definition receiving_input ::
  "pandas \<Rightarrow> config \<Rightarrow> int \<times> nat \<Rightarrow> dataframe \<Rightarrow> error + (dataframe \<times> dataframe)" where
  "receiving_input L cfg today df0 =
     (case exclude_brands L (excluded_brands cfg) COL_BRAND
             (filter_by_previous_month L today df0 (receiving_date_col (receiving cfg))) of
        Inl e \<Rightarrow> Inl e
      | Inr df1 \<Rightarrow> receiving_buckets (receiving cfg) df1)"

text \<open>A receiving export for a run in June 2024: four rows of May and a summary row.\<close>

definition demo_receipts :: dataframe where
  "demo_receipts = \<lparr>index = [0, 1, 2, 3, 4],
     data = [(''date'', [CDate 2024 5 6, CDate 2024 5 7, CDate 2024 5 8, CDate 2024 5 9, CStr ''total'']),
             (COL_BRAND, [CStr ''acme'', CStr ''bolt'', CStr ''acme'', CStr ''bolt'', CNull]),
             (''kind'', [CStr ''free'', CStr ''claim'', CStr ''normal'', CStr ''swap'', CNull]),
             (''class'', [CStr ''in : gift : x'', CStr ''in : claim'', CStr ''in : stock'', CStr ''swap'', CNull]),
             (''qty'', [CNum 7, CNum 3, CNum 9, CStr ''two'', CNum 19])]\<rparr>"


subsection \<open>Columns through the final selection\<close>

lemma map_of_filter_label:
  "map_of (filter (\<lambda>(k', vs). k' = c) xs) k = (if k = c then map_of xs k else None)"
  by (induction xs) auto

lemma map_of_select_cols:
  "map_of (concat (map (\<lambda>c. filter (\<lambda>(k', vs). k' = c) xs) ls)) k
     = (if k \<in> set ls then map_of xs k else None)"
proof (induction ls)
  case Nil show ?case by simp
next
  case (Cons c ls)
  have "map_of (concat (map (\<lambda>c. filter (\<lambda>(k', vs). k' = c) xs) (c # ls))) k
      = (case map_of (filter (\<lambda>(k', vs). k' = c) xs) k of
           None \<Rightarrow> map_of (concat (map (\<lambda>c. filter (\<lambda>(k', vs). k' = c) xs) ls)) k
         | Some v \<Rightarrow> Some v)"
    by (simp add: map_add_def split: option.splits)
  also have "\<dots> = (if k \<in> set (c # ls) then map_of xs k else None)"
    unfolding Cons.IH map_of_filter_label by (cases "map_of xs k") auto
  finally show ?case .
qed

lemma the_col_select_cols: "k \<in> set ls \<Longrightarrow> the_col (select_cols ls D) k = the_col D k"
  by (simp add: the_col_def select_cols_def map_of_select_cols)

lemma fill_missing_keeps:
  "k \<in> set (columns D) \<Longrightarrow> the_col (fill_missing ls D) k = the_col D k \<and> k \<in> set (columns (fill_missing ls D))"
proof (induction ls arbitrary: D)
  case Nil then show ?case by simp
next
  case (Cons c ls)
  show ?case
  proof (cases "c \<in> set (columns D)")
    case True then show ?thesis using Cons by simp
  next
    case False
    then have kc: "k \<noteq> c" using Cons.prems by auto
    have "k \<in> set (columns (set_const c CNull D))" using Cons.prems by simp
    then show ?thesis using Cons.IH[of "set_const c CNull D"] False kc
      by (simp add: the_col_set_const_other)
  qed
qed

lemma second_segment_example: "second_segment (CStr ''in : gift : x'') = CStr ''gift''"
  by (simp add: second_segment_def str_split_def)

lemma receiving_labels:
  "GUBUN_NEW \<noteq> SURYANG" "DANWI_EA \<noteq> SURYANG" "DANWI_EA \<noteq> GUBUN_NEW" "GUBUN_NEW \<noteq> GUBUN"
  "DANWI_EA \<noteq> GUBUN" "SURYANG \<noteq> GUBUN" "SURYANG \<noteq> GUBUN_NEW"
  "SURYANG \<in> set final_cols" "GUBUN_NEW \<in> set final_cols" "GUBUN \<in> set final_cols"
  by (simp_all add: final_cols_def label_defs)

lemma index_receiving_tail [simp]:
  "index (select_cols ls (fill_missing ls' D)) = index D"
  by simp

lemma receiving_finalize_empty:
  "df_empty d \<Longrightarrow> receiving_finalize L vc d cm b = Inr pd_DataFrame"
  by (simp add: receiving_finalize_def)

lemma the_col_receiving_tail:
  assumes "k \<in> set final_cols" and "k \<in> set (columns D)" and "k \<noteq> DANWI_EA"
  shows "the_col (select_cols final_cols (fill_missing final_cols (set_const DANWI_EA (CNum 1) D))) k
           = the_col D k"
proof -
  have "k \<in> set (columns (set_const DANWI_EA (CNum 1) D))" using assms(2) by simp
  then have "the_col (fill_missing final_cols (set_const DANWI_EA (CNum 1) D)) k
               = the_col (set_const DANWI_EA (CNum 1) D) k"
    using fill_missing_keeps by blast
  then show ?thesis using assms(1,3) by (simp add: the_col_select_cols the_col_set_const_other)
qed

lemma receiving_finalize_peculiar:
  assumes run: "receiving_finalize L vc d cm False = Inr out" and ne: "\<not> df_empty d"
    and qn: "receiving_qty_col vc \<notin> {JARYO_CHULCHEO, DANWI}"
  shows "index out = index d"
    and "the_col out SURYANG = map (\<lambda>c. CNum (- \<bar>numeric_value L c\<bar>)) (the_col d (receiving_qty_col vc))"
    and "the_col out GUBUN_NEW = replicate (df_len d) (CStr BANPUM)"
proof -
  define d1 where "d1 = set_const DANWI (CNum 1) (set_const JARYO_CHULCHEO (CStr SRC_RECEIVING) d)"
  from run ne obtain qs where qs: "get_col d1 (receiving_qty_col vc) = Inr qs"
    by (auto simp: receiving_finalize_def Let_def d1_def split: sum.splits)
  have q: "qs = the_col d (receiving_qty_col vc)"
    using qs qn by (auto simp: get_col_def the_col_def d1_def set_const_def map_of_set_col_other split: option.splits)
  define final_df where "final_df = rename_columns
        (rename_map [] (filter (\<lambda>(k, v). v \<noteq> receiving_qty_col vc \<and> v \<noteq> DANWI) cm)) d1"
  define f1 where "f1 = set_const GUBUN_NEW (CStr BANPUM)
       (set_col SURYANG (map ((\<lambda>q. cell_times (- 1) (cell_abs q)) \<circ> (\<lambda>c. fillna (CNum 0) (to_numeric L c))) qs) final_df)"
  have out: "out = select_cols final_cols (fill_missing final_cols (set_const DANWI_EA (CNum 1) f1))"
    using run ne qs by (simp add: receiving_finalize_def Let_def d1_def[symmetric] final_df_def[symmetric] f1_def)
  show "index out = index d" by (simp add: out f1_def final_df_def d1_def)
  have l: "df_len final_df = df_len d" by (simp add: final_df_def d1_def df_len_def)
  have s: "the_col f1 SURYANG = map (\<lambda>c. CNum (- \<bar>numeric_value L c\<bar>)) (the_col d (receiving_qty_col vc))"
    using receiving_labels by (simp add: f1_def the_col_set_const_other the_col_set_col q numeric_cell cell_abs_def cell_times_def)
  have g: "the_col f1 GUBUN_NEW = replicate (df_len d) (CStr BANPUM)"
    by (simp add: f1_def the_col_set_const l)
  have cs: "SURYANG \<in> set (columns f1)" "GUBUN_NEW \<in> set (columns f1)" by (simp_all add: f1_def)
  show "the_col out SURYANG = map (\<lambda>c. CNum (- \<bar>numeric_value L c\<bar>)) (the_col d (receiving_qty_col vc))"
    unfolding out using the_col_receiving_tail[OF receiving_labels(8) cs(1) receiving_labels(2)[symmetric]] s by simp
  show "the_col out GUBUN_NEW = replicate (df_len d) (CStr BANPUM)"
    unfolding out using the_col_receiving_tail[OF receiving_labels(9) cs(2) receiving_labels(3)[symmetric]] g by simp
qed

lemma receiving_finalize_free:
  assumes run: "receiving_finalize L vc d cm True = Inr out" and ne: "\<not> df_empty d"
    and qn: "receiving_qty_col vc \<notin> {JARYO_CHULCHEO, DANWI}"
  shows "index out = index d"
    and "the_col out SURYANG = map (\<lambda>c. CNum (numeric_value L c)) (the_col d (receiving_qty_col vc))"
    and "the_col out GUBUN_NEW = map second_segment (the_col out GUBUN)"
proof -
  define d1 where "d1 = set_const DANWI (CNum 1) (set_const JARYO_CHULCHEO (CStr SRC_RECEIVING) d)"
  from run ne obtain qs where qs: "get_col d1 (receiving_qty_col vc) = Inr qs"
    by (auto simp: receiving_finalize_def Let_def d1_def split: sum.splits)
  have q: "qs = the_col d (receiving_qty_col vc)"
    using qs qn by (auto simp: get_col_def the_col_def d1_def set_const_def map_of_set_col_other split: option.splits)
  define final_df where "final_df = rename_columns
        (rename_map [] (filter (\<lambda>(k, v). v \<noteq> receiving_qty_col vc \<and> v \<noteq> DANWI) cm)) d1"
  define f0 where "f0 = set_col SURYANG (map (\<lambda>c. fillna (CNum 0) (to_numeric L c)) qs) final_df"
  from run ne qs obtain gubun where gb: "get_col f0 GUBUN = Inr gubun"
    by (auto simp: receiving_finalize_def Let_def d1_def[symmetric] final_df_def[symmetric] f0_def[symmetric]
        split: sum.splits)
  define f1 where "f1 = set_col GUBUN_NEW (map second_segment gubun) f0"
  have out: "out = select_cols final_cols (fill_missing final_cols (set_const DANWI_EA (CNum 1) f1))"
    using run ne qs gb
    by (simp add: receiving_finalize_def Let_def d1_def[symmetric] final_df_def[symmetric]
        f0_def[symmetric] f1_def)
  show "index out = index d" by (simp add: out f1_def f0_def final_df_def d1_def)
  have gm: "map_of (data f0) GUBUN = Some gubun" using gb by (auto simp: get_col_def split: option.splits)
  then have gc0: "GUBUN \<in> set (columns f0)" by (force simp: columns_def dest: map_of_SomeD)
  have g0: "the_col f0 GUBUN = gubun" using gm by (simp add: the_col_def)
  have s: "the_col f1 SURYANG = map (\<lambda>c. CNum (numeric_value L c)) (the_col d (receiving_qty_col vc))"
    using receiving_labels by (simp add: f1_def f0_def the_col_set_col_other the_col_set_col q numeric_cell)
  have g: "the_col f1 GUBUN_NEW = map second_segment gubun" by (simp add: f1_def the_col_set_col)
  have gg: "the_col f1 GUBUN = gubun" using receiving_labels g0 by (simp add: f1_def the_col_set_col_other)
  have cs: "SURYANG \<in> set (columns f1)" "GUBUN_NEW \<in> set (columns f1)" "GUBUN \<in> set (columns f1)"
    using gc0 by (simp_all add: f1_def f0_def)
  show "the_col out SURYANG = map (\<lambda>c. CNum (numeric_value L c)) (the_col d (receiving_qty_col vc))"
    unfolding out using the_col_receiving_tail[OF receiving_labels(8) cs(1) receiving_labels(2)[symmetric]] s by simp
  have "the_col out GUBUN = gubun"
    unfolding out using the_col_receiving_tail[OF receiving_labels(10) cs(3) receiving_labels(5)[symmetric]] gg by simp
  moreover have "the_col out GUBUN_NEW = map second_segment gubun"
    unfolding out using the_col_receiving_tail[OF receiving_labels(9) cs(2) receiving_labels(3)[symmetric]] g by simp
  ultimately show "the_col out GUBUN_NEW = map second_segment (the_col out GUBUN)" by simp
qed

text \<open>
  The second segment, for segments without a colon: a text with no separator has none,
  and the text between the first separator and the next (or the end) is the second.
\<close>

lemma split_from_no_colon:
  "CHR '':'' \<notin> set a \<Longrightarrow> split_from 0 acc '' : '' a = [rev acc @ a]"
proof (induction a arbitrary: acc)
  case Nil show ?case by simp
next
  case (Cons c a)
  have "\<not> startswith (c # a) '' : ''"
    using Cons.prems by (cases a) auto
  then show ?case using Cons by simp
qed

lemma split_from_segment:
  "CHR '':'' \<notin> set a \<Longrightarrow>
   split_from 0 acc '' : '' (a @ '' : '' @ rest) = (rev acc @ a) # split_from 0 [] '' : '' rest"
proof (induction a arbitrary: acc)
  case Nil show ?case by simp
next
  case (Cons c a)
  have "\<not> startswith (c # a @ '' : '' @ rest) '' : ''"
    using Cons.prems by (cases a) auto
  then show ?case using Cons by simp
qed

lemma second_segment_spec:
  assumes "CHR '':'' \<notin> set a" and "CHR '':'' \<notin> set b"
  shows "second_segment (CStr a) = CNull"
    and "second_segment (CStr (a @ '' : '' @ b)) = CStr b"
    and "second_segment (CStr (a @ '' : '' @ b @ '' : '' @ rest)) = CStr b"
proof -
  show "second_segment (CStr a) = CNull"
    using split_from_no_colon[OF assms(1), of "[]"] by (simp add: second_segment_def str_split_def)
  show "second_segment (CStr (a @ '' : '' @ b)) = CStr b"
    using split_from_segment[OF assms(1), of "[]" b] split_from_no_colon[OF assms(2), of "[]"]
    by (simp add: second_segment_def str_split_def)
  have "split_from 0 [] '' : '' (a @ '' : '' @ b @ '' : '' @ rest)
          = a # b # split_from 0 [] '' : '' rest"
    using split_from_segment[OF assms(1), of "[]" "b @ '' : '' @ rest"]
      split_from_segment[OF assms(2), of "[]" rest] by simp
  then show "second_segment (CStr (a @ '' : '' @ b @ '' : '' @ rest)) = CStr b"
    by (simp add: second_segment_def str_split_def)
qed


subsection \<open>Quantity and category of the two buckets\<close>




section \<open>Report assembly\<close>

text \<open>
  \<^verbatim>\<open>format_date_columns\<close>: a date column is parsed once more and printed with
  \<^verbatim>\<open>strftime('%Y-%m-%d')\<close>; what does not parse stays missing.
\<close>

definition format_date_columns :: "pandas \<Rightarrow> dataframe \<Rightarrow> dataframe" where
  "format_date_columns L df =
     (if ILJA \<in> set (columns df)
      then set_col ILJA
             (map (\<lambda>c. case to_datetime L c of CDate y m d \<Rightarrow> CStr (strftime L (y, m, d)) | _ \<Rightarrow> CNull)
                (the_col df ILJA))
             df
      else df)"

text \<open>A workbook is the list of its sheets, in the order they are written.\<close>

type_synonym workbook = "(string \<times> dataframe) list"

text \<open>One guarded write: \<^verbatim>\<open>if not df.empty: format_date_columns(df).to_excel(...)\<close>.\<close>

definition write_sheet :: "pandas \<Rightarrow> string \<Rightarrow> dataframe \<Rightarrow> workbook \<Rightarrow> workbook" where
  "write_sheet L name df wb = (if \<not> df_empty df then wb @ [(name, format_date_columns L df)] else wb)"

text \<open>The tally of lines 301 to 305 as a frame.\<close>

definition validation_data :: "nat \<Rightarrow> nat \<Rightarrow> nat \<Rightarrow> dataframe" where
  "validation_data n_main n_type n_store =
     (let total_processed = n_main + n_type + n_store
      in \<lparr>index = [0, 1, 2, 3],
          data = [(HANGMOK, [CStr ILBAN_CHULGO, CStr SHEET_TYPE_ABNORMAL, CStr SHEET_STORE_ABNORMAL,
                             CStr TOTAL_CHULGO]),
                  (GEONSU, [CNum (int n_main), CNum (int n_type), CNum (int n_store),
                            CNum (int total_processed)])]\<rparr>)"

text \<open>
  Lines 276 to 306, from the three domain tables to the sheets of the workbook. An
  error of a classifier ends the run without a workbook.
\<close>

definition build_workbook ::
  "pandas \<Rightarrow> config \<Rightarrow> int \<times> nat \<Rightarrow> dataframe \<Rightarrow> dataframe \<Rightarrow> dataframe \<Rightarrow> error + workbook" where
  "build_workbook L cfg today df_shipping df_return df_receiving =
     (case process_shipping_data L cfg today df_shipping of
        Inl e \<Rightarrow> Inl e
      | Inr (main_shipping, type_abnormal, store_abnormal) \<Rightarrow>
          (case process_return_data L cfg today df_return of
             Inl e \<Rightarrow> Inl e
           | Inr main_return \<Rightarrow>
               (case process_receiving_data L cfg today df_receiving of
                  Inl e \<Rightarrow> Inl e
                | Inr (peculiar_receiving, free_receiving) \<Rightarrow>
                    let df_summary_final = pd_concat main_shipping main_return;
                        wb1 = write_sheet L SHEET_SUMMARY df_summary_final [];
                        wb2 = write_sheet L SHEET_STORE_ABNORMAL store_abnormal wb1;
                        wb3 = write_sheet L SHEET_TYPE_ABNORMAL type_abnormal wb2;
                        wb4 = write_sheet L SHEET_PECULIAR peculiar_receiving wb3;
                        wb5 = write_sheet L SHEET_FREE free_receiving wb4
                    in Inr (wb5 @ [(SHEET_VALIDATION,
                                    validation_data (df_len main_shipping) (df_len type_abnormal)
                                      (df_len store_abnormal))]))))"


subsection \<open>The validation sheet\<close>

lemma sheet_names_distinct:
  "SHEET_SUMMARY \<noteq> SHEET_VALIDATION" "SHEET_STORE_ABNORMAL \<noteq> SHEET_VALIDATION"
  "SHEET_TYPE_ABNORMAL \<noteq> SHEET_VALIDATION" "SHEET_PECULIAR \<noteq> SHEET_VALIDATION"
  "SHEET_FREE \<noteq> SHEET_VALIDATION" "HANGMOK \<noteq> GEONSU"
  by (simp_all add: label_defs)

lemma write_sheet_names:
  "name \<noteq> SHEET_VALIDATION \<Longrightarrow>
   filter (\<lambda>(n, d). n = SHEET_VALIDATION) (write_sheet L name df wb)
     = filter (\<lambda>(n, d). n = SHEET_VALIDATION) wb"
  by (simp add: write_sheet_def)

lemma write_sheet_empty: "df_empty df \<Longrightarrow> write_sheet L name df wb = wb"
  by (simp add: write_sheet_def)

lemma process_empty:
  "process_shipping_data L cfg today pd_DataFrame = Inr (pd_DataFrame, pd_DataFrame, pd_DataFrame)"
  "process_return_data L cfg today pd_DataFrame = Inr pd_DataFrame"
  "process_receiving_data L cfg today pd_DataFrame = Inr (pd_DataFrame, pd_DataFrame)"
  by (simp_all add: process_shipping_data_def process_return_data_def process_receiving_data_def
      df_empty_def pd_DataFrame_def)

text \<open>
  Claim C10. Every run that produces a workbook writes the validation sheet, once and
  last, with four rows: the row counts of the main, the type-anomaly and the
  mall-anomaly shipping tables and their sum. A run on empty tables produces a workbook
  whose only sheet is the validation sheet, with the counts 0, 0, 0, 0: each of the
  other five sheets is omitted there, the validation sheet never.
\<close>

theorem validation_sheet_always_written:
  "(build_workbook L cfg today df_shipping df_return df_receiving = Inr wb \<longrightarrow>
      (\<exists>m t s v. process_shipping_data L cfg today df_shipping = Inr (m, t, s) \<and>
         wb \<noteq> [] \<and> last wb = (SHEET_VALIDATION, v) \<and>
         length (filter (\<lambda>(n, d). n = SHEET_VALIDATION) wb) = 1 \<and>
         index v = [0, 1, 2, 3] \<and>
         the_col v HANGMOK = [CStr ILBAN_CHULGO, CStr SHEET_TYPE_ABNORMAL, CStr SHEET_STORE_ABNORMAL,
                              CStr TOTAL_CHULGO] \<and>
         the_col v GEONSU = [CNum (int (df_len m)), CNum (int (df_len t)), CNum (int (df_len s)),
                             CNum (int (df_len m + df_len t + df_len s))])) \<and>
   (\<exists>v0. build_workbook L cfg today pd_DataFrame pd_DataFrame pd_DataFrame = Inr [(SHEET_VALIDATION, v0)] \<and>
      the_col v0 GEONSU = [CNum 0, CNum 0, CNum 0, CNum 0])"
proof -
  have first: "\<exists>m t s v. process_shipping_data L cfg today df_shipping = Inr (m, t, s) \<and>
         wb \<noteq> [] \<and> last wb = (SHEET_VALIDATION, v) \<and>
         length (filter (\<lambda>(n, d). n = SHEET_VALIDATION) wb) = 1 \<and>
         index v = [0, 1, 2, 3] \<and>
         the_col v HANGMOK = [CStr ILBAN_CHULGO, CStr SHEET_TYPE_ABNORMAL, CStr SHEET_STORE_ABNORMAL,
                              CStr TOTAL_CHULGO] \<and>
         the_col v GEONSU = [CNum (int (df_len m)), CNum (int (df_len t)), CNum (int (df_len s)),
                             CNum (int (df_len m + df_len t + df_len s))]"
    if run: "build_workbook L cfg today df_shipping df_return df_receiving = Inr wb"
  proof -
    from run obtain m t s r p f where
      sh: "process_shipping_data L cfg today df_shipping = Inr (m, t, s)" and
      re: "process_return_data L cfg today df_return = Inr r" and
      rc: "process_receiving_data L cfg today df_receiving = Inr (p, f)"
      by (auto simp: build_workbook_def split: sum.splits prod.splits)
    define wb5 where "wb5 =
        write_sheet L SHEET_FREE f (write_sheet L SHEET_PECULIAR p
          (write_sheet L SHEET_TYPE_ABNORMAL t (write_sheet L SHEET_STORE_ABNORMAL s
            (write_sheet L SHEET_SUMMARY (pd_concat m r) []))))"
    define v where "v = validation_data (df_len m) (df_len t) (df_len s)"
    have wb: "wb = wb5 @ [(SHEET_VALIDATION, v)]"
      using run sh re rc by (simp add: build_workbook_def Let_def wb5_def v_def)
    have none: "filter (\<lambda>(n, d). n = SHEET_VALIDATION) wb5 = []"
      unfolding wb5_def by (simp add: write_sheet_names sheet_names_distinct)
    have one: "length (filter (\<lambda>(n, d). n = SHEET_VALIDATION) wb) = 1"
      by (simp add: wb none)
    have v1: "index v = [0, 1, 2, 3]" by (simp add: v_def validation_data_def Let_def)
    have v2: "the_col v HANGMOK = [CStr ILBAN_CHULGO, CStr SHEET_TYPE_ABNORMAL, CStr SHEET_STORE_ABNORMAL,
                              CStr TOTAL_CHULGO]"
      by (simp add: v_def validation_data_def Let_def the_col_def)
    have v3: "the_col v GEONSU = [CNum (int (df_len m)), CNum (int (df_len t)), CNum (int (df_len s)),
                             CNum (int (df_len m + df_len t + df_len s))]"
      using sheet_names_distinct(6) by (simp add: v_def validation_data_def Let_def the_col_def)
    have "wb \<noteq> []" "last wb = (SHEET_VALIDATION, v)" by (simp_all add: wb)
    then show ?thesis using sh one v1 v2 v3 by blast
  qed
  have e: "df_empty pd_DataFrame" "df_empty (pd_concat pd_DataFrame pd_DataFrame)"
    by (simp_all add: df_empty_def pd_DataFrame_def pd_concat_def df_len_def)
  have bw: "build_workbook L cfg today pd_DataFrame pd_DataFrame pd_DataFrame
      = Inr [(SHEET_VALIDATION, validation_data 0 0 0)]"
    using e by (simp add: build_workbook_def process_empty Let_def write_sheet_empty)
       (simp add: pd_DataFrame_def df_len_def)
  have "the_col (validation_data 0 0 0) GEONSU = [CNum 0, CNum 0, CNum 0, CNum 0]"
    using sheet_names_distinct(6) by (simp add: validation_data_def Let_def the_col_def)
  then have second: "\<exists>v0. build_workbook L cfg today pd_DataFrame pd_DataFrame pd_DataFrame = Inr [(SHEET_VALIDATION, v0)] \<and>
      the_col v0 GEONSU = [CNum 0, CNum 0, CNum 0, CNum 0]"
    using bw by blast
  show ?thesis using first second by blast
qed

theorem validation_sheet_always_written_witness:
  "\<exists>wb. build_workbook strict_pandas demo_config (2024, 6) demo_shipments demo_returns demo_receipts = Inr wb \<and>
     map fst wb = [SHEET_SUMMARY, SHEET_STORE_ABNORMAL, SHEET_TYPE_ABNORMAL, SHEET_PECULIAR, SHEET_FREE,
                   SHEET_VALIDATION] \<and>
     the_col (snd (last wb)) GEONSU = [CNum 3, CNum 1, CNum 1, CNum 5]"
proof -
  define res where "res = build_workbook strict_pandas demo_config (2024, 6) demo_shipments demo_returns demo_receipts"
  define names where "names = [SHEET_SUMMARY, SHEET_STORE_ABNORMAL, SHEET_TYPE_ABNORMAL, SHEET_PECULIAR,
                                   SHEET_FREE, SHEET_VALIDATION]"
  have "case res of Inr wb \<Rightarrow> map fst wb = names | Inl e \<Rightarrow> False"
    unfolding res_def names_def by code_simp
  then obtain wb where run: "res = Inr wb" and nm: "map fst wb = names"
    by (cases res) simp_all
  define sh where "sh = process_shipping_data strict_pandas demo_config (2024, 6) demo_shipments"
  have cnt: "(case sh of Inr (m, t, s) \<Rightarrow> (df_len m, df_len t, df_len s) | Inl e \<Rightarrow> (0, 0, 0)) = (3, 1, 1)"
    unfolding sh_def by code_simp
  have imp: "res = Inr wb \<longrightarrow>
      (\<exists>m t s v. sh = Inr (m, t, s) \<and>
         wb \<noteq> [] \<and> last wb = (SHEET_VALIDATION, v) \<and>
         length (filter (\<lambda>(n, d). n = SHEET_VALIDATION) wb) = 1 \<and>
         index v = [0, 1, 2, 3] \<and>
         the_col v HANGMOK = [CStr ILBAN_CHULGO, CStr SHEET_TYPE_ABNORMAL, CStr SHEET_STORE_ABNORMAL,
                              CStr TOTAL_CHULGO] \<and>
         the_col v GEONSU = [CNum (int (df_len m)), CNum (int (df_len t)), CNum (int (df_len s)),
                             CNum (int (df_len m + df_len t + df_len s))])"
    unfolding res_def sh_def by (rule validation_sheet_always_written[THEN conjunct1])
  from mp[OF imp run] obtain m t s v where m: "sh = Inr (m, t, s)"
    and lw: "last wb = (SHEET_VALIDATION, v)"
    and g: "the_col v GEONSU = [CNum (int (df_len m)), CNum (int (df_len t)), CNum (int (df_len s)),
                             CNum (int (df_len m + df_len t + df_len s))]"
    by (elim exE conjE)
  have "df_len m = 3" "df_len t = 1" "df_len s = 1" using cnt m by simp_all
  then have "the_col (snd (last wb)) GEONSU = [CNum 3, CNum 1, CNum 1, CNum 5]"
    using g lw by simp
  then show ?thesis using run nm unfolding res_def names_def by (intro exI[of _ wb] conjI)
qed

end
